theory Spec2Isabelle
  imports Complex_Main "HOL-Library.Sublist"
begin

section \<open>Strings\<close>

text \<open>
  A Python \<open>str\<close> is a sequence of Unicode code points, and \<open>len\<close> counts code points.
  The literals of the sources are Thai text, so a string is modelled as the list of its code
  points: \<open>[10]\<close> is a newline, \<open>[46, 32]\<close> is a full stop followed by a space.
\<close>

type_synonym ustr = "nat list"

text \<open>ASCII literals are written as \<open>ascii ''url''\<close>.\<close>

definition ascii :: "string \<Rightarrow> ustr" where
  "ascii s = map of_char s"

text \<open>The code points for which \<open>str.isspace\<close> holds; \<open>str.strip()\<close> removes exactly these.\<close>

definition isspace :: "nat \<Rightarrow> bool" where
  "isspace c \<longleftrightarrow>
     c \<in> {9, 10, 11, 12, 13, 28, 29, 30, 31, 32, 133, 160, 5760, 8232, 8233, 8239, 8287, 12288}
     \<or> (8192 \<le> c \<and> c \<le> 8202)"

definition strip :: "ustr \<Rightarrow> ustr" where
  "strip s = rev (dropWhile isspace (rev (dropWhile isspace s)))"

text \<open>
  The highest index at which \<open>sub\<close> occurs in a string, if there is one: an occurrence
  further right wins over one at the head.
\<close>

fun find_last :: "'a list \<Rightarrow> 'a list \<Rightarrow> nat option" where
  "find_last sub [] = (if sub = [] then Some 0 else None)"
| "find_last sub (x # xs) =
     (case find_last sub xs of
        Some i \<Rightarrow> Some (Suc i)
      | None \<Rightarrow> if prefix sub (x # xs) then Some 0 else None)"

text \<open>\<open>s.rfind(sub)\<close>: the highest index at which \<open>sub\<close> occurs, \<open>-1\<close> when there is none.\<close>

definition rfind :: "'a list \<Rightarrow> 'a list \<Rightarrow> int" where
  "rfind sub s = (case find_last sub s of None \<Rightarrow> - 1 | Some i \<Rightarrow> int i)"

text \<open>\<open>sub in s\<close>.\<close>

definition contains :: "'a list \<Rightarrow> 'a list \<Rightarrow> bool" where
  "contains sub s \<longleftrightarrow> find_last sub s \<noteq> None"

text \<open>
  Slicing with Python's index rules: a negative index counts from the end, and both ends
  are clamped to the string. \<open>slice s a b\<close> is \<open>s[a:b]\<close>, \<open>slice_from s a\<close> is \<open>s[a:]\<close>.
\<close>

definition clamp_index :: "int \<Rightarrow> nat \<Rightarrow> nat" where
  "clamp_index i n = (if i < 0 then nat (max 0 (i + int n)) else min (nat i) n)"

definition slice :: "'a list \<Rightarrow> int \<Rightarrow> int \<Rightarrow> 'a list" where
  "slice s a b =
     (let lo = clamp_index a (length s); hi = clamp_index b (length s)
      in take (hi - lo) (drop lo s))"

definition slice_from :: "'a list \<Rightarrow> int \<Rightarrow> 'a list" where
  "slice_from s a = drop (clamp_index a (length s)) s"

section \<open>The chunker (crawler.py, \<open>chunk_text\<close>)\<close>

text \<open>
  The source compares an index with the float \<open>chunk_size * 0.3\<close>. For an integer index
  \<open>i\<close> that comparison is \<open>3 * chunk_size < 10 * i\<close>: the float product is the exact
  value when \<open>3 * chunk_size\<close> is a multiple of ten, and otherwise it is at least a tenth
  away from every integer. (This is so for every chunk size that a float holds exactly,
  up to \<open>2 ^ 53\<close>; the comparison is only reached with a chunk size below the length of
  the text.)
\<close>

definition past_30 :: "int \<Rightarrow> int \<Rightarrow> bool" where
  "past_30 chunk_size i \<longleftrightarrow> 3 * chunk_size < 10 * i"

text \<open>
  The value of \<open>end\<close> after the break-point search of one loop iteration, for a window that
  starts at \<open>start\<close>: the paragraph break \<open>"\n\n"\<close> first, then the sentence break
  \<open>". "\<close>, then the hard boundary \<open>start + chunk_size\<close>.
\<close>

definition cut_point :: "ustr \<Rightarrow> int \<Rightarrow> int \<Rightarrow> int" where
  "cut_point text chunk_size start =
     (let end_pos = start + chunk_size;
          chunk = slice text start end_pos;
          paragraph_break = rfind [10, 10] chunk
      in if past_30 chunk_size paragraph_break then start + paragraph_break + 2
         else if contains [46, 32] chunk then
           (let last_period = rfind [46, 32] chunk
            in if past_30 chunk_size last_period then start + last_period + 1 else end_pos)
         else end_pos)"

text \<open>The loop body's \<open>if chunk: chunks.append(chunk)\<close>.\<close>

definition add_chunk :: "ustr list \<Rightarrow> ustr \<Rightarrow> ustr list" where
  "add_chunk chunks chunk = (if chunk \<noteq> [] then chunks @ [chunk] else chunks)"

text \<open>
  The \<open>while\<close> loop. It need not end (with \<open>chunk_size = 0\<close> the position never moves), so
  it is a partial function: \<open>None\<close> stands for a loop that runs forever. The last chunk is
  appended without the emptiness test, as in the source.
\<close>

partial_function (option) chunk_loop :: "ustr \<Rightarrow> int \<Rightarrow> int \<Rightarrow> ustr list \<Rightarrow> ustr list option" where
  "chunk_loop text chunk_size start chunks =
     (if start < int (length text) then
        (if start + chunk_size \<ge> int (length text)
         then Some (chunks @ [strip (slice_from text start)])
         else
           (let end_pos = cut_point text chunk_size start;
                chunk = strip (slice text start end_pos)
            in chunk_loop text chunk_size end_pos (add_chunk chunks chunk)))
      else Some chunks)"

definition chunk_text :: "ustr \<Rightarrow> int \<Rightarrow> ustr list option" where
  "chunk_text text chunk_size = chunk_loop text chunk_size 0 []"

text \<open>
  What "reconstructs the text up to whitespace trimming" means: the text is the chunks in
  order, with a run of whitespace (possibly empty) before each chunk and after the last.
\<close>

inductive reconstructs :: "ustr list \<Rightarrow> ustr \<Rightarrow> bool" where
  rc_nil: "\<forall>x\<in>set w. isspace x \<Longrightarrow> reconstructs [] w"
| rc_cons: "\<forall>x\<in>set w. isspace x \<Longrightarrow> reconstructs chunks t \<Longrightarrow>
            reconstructs (chunk # chunks) (w @ chunk @ t)"

section \<open>Values, exceptions and the vector store's rows\<close>

text \<open>An exception is a value; it carries \<open>str(e)\<close>.\<close>

datatype error = Error ustr

text \<open>The values a metadata dictionary holds in this program: strings and integers.\<close>

datatype pyval = StrV ustr | IntV int

type_synonym metadata = "ustr \<rightharpoonup> pyval"

type_synonym embedding = "real list"

text \<open>\<open>str(n)\<close> for an integer, as an f-string formats it.\<close>

fun digits :: "nat \<Rightarrow> ustr" where
  "digits n = (if n < 10 then [48 + n] else digits (n div 10) @ [48 + n mod 10])"

declare digits.simps [simp del]

definition str_int :: "int \<Rightarrow> ustr" where
  "str_int i = (if i < 0 then 45 # digits (nat (- i)) else digits (nat i))"

text \<open>The dataclass \<open>ProcessedChunk\<close>.\<close>

record processed_chunk =
  url :: ustr
  chunk_number :: int
  title :: ustr
  summary :: ustr
  content :: ustr
  metadata :: metadata
  embedding :: embedding

text \<open>One row handed to \<open>collection.add\<close>: the document, its embedding and its metadata.\<close>

record row =
  row_document :: ustr
  row_embedding :: embedding
  row_metadata :: metadata

section \<open>The store writer (crawler.py, \<open>insert_chunk\<close>)\<close>

text \<open>The id \<open>f"{chunk.url}_{chunk.chunk_number}"\<close>.\<close>

definition chunk_id :: "processed_chunk \<Rightarrow> ustr" where
  "chunk_id chunk = url chunk @ ascii ''_'' @ str_int (chunk_number chunk)"

text \<open>
  The row written for a chunk. The four fixed keys come first and \<open>**chunk.metadata\<close>
  after them, so a key of \<open>chunk.metadata\<close> wins.
\<close>

definition chunk_row :: "processed_chunk \<Rightarrow> row" where
  "chunk_row chunk =
     \<lparr>row_document = content chunk,
      row_embedding = embedding chunk,
      row_metadata =
        [ascii ''url'' \<mapsto> StrV (url chunk),
         ascii ''chunk_number'' \<mapsto> IntV (chunk_number chunk),
         ascii ''title'' \<mapsto> StrV (title chunk),
         ascii ''summary'' \<mapsto> StrV (summary chunk)] ++ metadata chunk\<rparr>"

text \<open>
  \<open>insert_chunk\<close>. The vector store is a collaborator outside the repository, so its
  \<open>add\<close> is a parameter: given the collection, an id and a row it returns the new
  collection or raises. The source catches the exception, prints and goes on, which leaves
  the collection as it was.
\<close>

definition insert_chunk ::
    "('c \<Rightarrow> ustr \<Rightarrow> row \<Rightarrow> error + 'c) \<Rightarrow> 'c \<Rightarrow> processed_chunk \<Rightarrow> 'c" where
  "insert_chunk add collection chunk =
     (case add collection (chunk_id chunk) (chunk_row chunk) of
        Inr collection' \<Rightarrow> collection'
      | Inl e \<Rightarrow> collection)"

text \<open>
  Modelled from the spec: the vector store's \<open>add\<close> primitive (ChromaDB, which is not part
  of the repository). The spec describes the store as persistent and string-keyed, and the
  write as an upsert, "insert-or-overwrite keyed write": a collection is a map from ids to
  rows and \<open>add\<close> puts the row at its id, replacing what was there.
\<close>

type_synonym keyed_store = "ustr \<rightharpoonup> row"

definition upsert_add :: "keyed_store \<Rightarrow> ustr \<Rightarrow> row \<Rightarrow> error + keyed_store" where
  "upsert_add store k r = Inr (store(k \<mapsto> r))"

section \<open>The crawler (crawler.py)\<close>

text \<open>
  What the crawler reaches outside the repository, as parameters: the HTTP client, the HTML
  parser (BeautifulSoup), \<open>urllib.parse\<close>, the language model behind the title, the
  embedding service, the clock and the store. A call that the source wraps in
  \<open>try\<close>/\<open>except\<close> returns an error or a value; the library calls that the source makes
  unguarded (\<open>urljoin\<close>, \<open>urlparse\<close>, the parser) are taken on the inputs they accept.
  \<^item> \<open>http_get url\<close>: \<open>session.get(url, timeout=30)\<close>, the status and the body text, or the
    exception (network error, timeout, undecodable body);
  \<^item> \<open>extract_text_from_html html\<close>: the parser's text without the script, style, header,
    footer and nav subtrees, cut into stripped non-empty lines joined by blank lines;
  \<^item> \<open>anchor_hrefs html\<close>: the \<open>href\<close> of every \<open>a\<close> tag that has one, in document order;
  \<^item> \<open>get_title chunk url\<close>: the title \<open>get_title_and_content\<close> returns (it never raises:
    it falls back to a default title);
  \<^item> \<open>utc_now url i\<close>: the clock reading when chunk \<open>i\<close> of \<open>url\<close> is processed.
  A crawl fetches a URL at most once and processes each of its chunks once, so functions
  of the URL and the chunk cover every behaviour of these services within a crawl.
\<close>

record 'c crawl_env =
  http_get :: "ustr \<Rightarrow> error + nat \<times> ustr"
  extract_text_from_html :: "ustr \<Rightarrow> ustr"
  anchor_hrefs :: "ustr \<Rightarrow> ustr list"
  urljoin :: "ustr \<Rightarrow> ustr \<Rightarrow> ustr"
  netloc :: "ustr \<Rightarrow> ustr"
  url_path :: "ustr \<Rightarrow> ustr"
  get_title :: "ustr \<Rightarrow> ustr \<Rightarrow> ustr"
  aembed_query :: "ustr \<Rightarrow> error + embedding"
  utc_now :: "ustr \<Rightarrow> int \<Rightarrow> ustr"
  collection_add :: "'c \<Rightarrow> ustr \<Rightarrow> row \<Rightarrow> error + 'c"

text \<open>\<open>get_embedding\<close>: a failed call gives the zero vector of dimension 1024.\<close>

definition get_embedding :: "'c crawl_env \<Rightarrow> ustr \<Rightarrow> embedding" where
  "get_embedding env tx =
     (case aembed_query env tx of Inr result \<Rightarrow> result | Inl e \<Rightarrow> replicate 1024 0)"

definition process_chunk :: "'c crawl_env \<Rightarrow> ustr \<Rightarrow> int \<Rightarrow> ustr \<Rightarrow> processed_chunk" where
  "process_chunk env chunk i u =
     \<lparr>url = u,
      chunk_number = i,
      title = get_title env chunk u,
      summary = chunk,
      content = chunk,
      metadata =
        [ascii ''source'' \<mapsto> StrV (netloc env u),
         ascii ''chunk_size'' \<mapsto> IntV (int (length chunk)),
         ascii ''crawled_at'' \<mapsto> StrV (utc_now env u i),
         ascii ''url_path'' \<mapsto> StrV (url_path env u)],
      embedding = get_embedding env chunk\<rparr>"

text \<open>
  \<open>process_and_store_document\<close>: chunk with the default size 1500, process every chunk with
  its index, insert every processed chunk; the result is the new collection and the number
  of processed chunks. \<open>None\<close> is a chunker that does not return. The source gathers the
  tasks of a page concurrently; the model runs them in the order of the chunks.
\<close>

definition process_and_store_document ::
    "'c crawl_env \<Rightarrow> 'c \<Rightarrow> ustr \<Rightarrow> ustr \<Rightarrow> ('c \<times> nat) option" where
  "process_and_store_document env collection u content_text =
     (case chunk_text content_text 1500 of
        None \<Rightarrow> None
      | Some chunks \<Rightarrow>
          (let processed_chunks =
                 map (\<lambda>(i, chunk). process_chunk env chunk (int i) u) (enumerate 0 chunks)
           in Some (foldl (insert_chunk (collection_add env)) collection processed_chunks,
                    length processed_chunks)))"

text \<open>\<open>fetch_url\<close>: the body for status 200, \<open>None\<close> for another status or an exception.\<close>

definition fetch_url :: "'c crawl_env \<Rightarrow> ustr \<Rightarrow> ustr option" where
  "fetch_url env u =
     (case http_get env u of
        Inr (status, html) \<Rightarrow> if status = 200 then Some html else None
      | Inl e \<Rightarrow> None)"

text \<open>
  \<open>extract_links_from_html\<close>: every href joined to the base URL, kept when its \<open>netloc\<close> is
  the base URL's, then \<open>list(set(links))\<close>. The order of that list is not fixed by Python;
  the model keeps the first occurrences in document order.
\<close>

definition extract_links_from_html :: "'c crawl_env \<Rightarrow> ustr \<Rightarrow> ustr \<Rightarrow> ustr list" where
  "extract_links_from_html env html base_url =
     remdups
       (filter (\<lambda>full_url. netloc env full_url = netloc env base_url)
          (map (urljoin env base_url) (anchor_hrefs env html)))"

text \<open>
  A Python set is a list without duplicates, in insertion order; \<open>set_add\<close> is \<open>s.add(x)\<close>
  and \<open>len(s)\<close> is the \<open>length\<close> of the list.
\<close>

definition set_add :: "'a \<Rightarrow> 'a list \<Rightarrow> 'a list" where
  "set_add x xs = (if x \<in> set xs then xs else xs @ [x])"

record 'c crawl_state =
  visited_urls :: "ustr list"
  queued_urls :: "ustr list"
  processed_count :: nat
  collection :: 'c

text \<open>The loop over \<open>new_links\<close>: a link that is not visited is added to the queue.\<close>

definition enqueue_links :: "ustr list \<Rightarrow> ustr list \<Rightarrow> ustr list \<Rightarrow> ustr list" where
  "enqueue_links visited queued new_links =
     foldl (\<lambda>q link. if link \<notin> set visited then set_add link q else q) queued new_links"

text \<open>
  The loop body of \<open>crawl_website\<close> from the fetch on, for a URL that has just been marked
  visited. An empty body is falsy in \<open>if html:\<close> and is treated like a failed fetch.
\<close>

definition crawl_page :: "'c crawl_env \<Rightarrow> ustr \<Rightarrow> 'c crawl_state \<Rightarrow> 'c crawl_state option" where
  "crawl_page env current_url s =
     (case fetch_url env current_url of
        None \<Rightarrow> Some s
      | Some html \<Rightarrow>
          if html = [] then Some s
          else
            (let text_content = extract_text_from_html env html;
                 stored =
                   (if 500 < length text_content then
                      (case process_and_store_document env (collection s) current_url text_content of
                         None \<Rightarrow> None
                       | Some (collection', chunks_added) \<Rightarrow>
                           Some (s\<lparr>collection := collection',
                                   processed_count := processed_count s + 1\<rparr>))
                    else Some s)
             in case stored of
                  None \<Rightarrow> None
                | Some s' \<Rightarrow>
                    Some (s'\<lparr>queued_urls :=
                            enqueue_links (visited_urls s') (queued_urls s')
                              (extract_links_from_html env html current_url)\<rparr>)))"

text \<open>
  The \<open>while\<close> loop. \<open>queued_urls.pop()\<close> takes an arbitrary element of the set: the choice
  is the parameter \<open>pick\<close>, which names the position of the element to take in the queue
  at hand, so every order of visits is the run of some \<open>pick\<close>.
\<close>

function crawl_loop ::
    "'c crawl_env \<Rightarrow> (ustr list \<Rightarrow> nat) \<Rightarrow> int \<Rightarrow> 'c crawl_state \<Rightarrow> 'c crawl_state option" where
  "crawl_loop env pick max_pages s =
     (if queued_urls s \<noteq> [] \<and> int (length (visited_urls s)) < max_pages then
        (let i = pick (queued_urls s) mod length (queued_urls s);
             current_url = queued_urls s ! i;
             s1 = s\<lparr>queued_urls := take i (queued_urls s) @ drop (Suc i) (queued_urls s)\<rparr>
         in if current_url \<in> set (visited_urls s1) then crawl_loop env pick max_pages s1
            else
              (case crawl_page env current_url
                      (s1\<lparr>visited_urls := set_add current_url (visited_urls s1)\<rparr>) of
                 None \<Rightarrow> None
               | Some s2 \<Rightarrow> crawl_loop env pick max_pages s2))
      else Some s)"
  by pat_completeness auto

termination crawl_loop
proof (relation "measures [\<lambda>(env, pick, max_pages, s). nat (max_pages - int (length (visited_urls s))),
                           \<lambda>(env, pick, max_pages, s). length (queued_urls s)]")
  show "wf (measures [\<lambda>(env :: 'a crawl_env, pick :: ustr list \<Rightarrow> nat, max_pages :: int, s :: 'a crawl_state). nat (max_pages - int (length (visited_urls s))),
                           \<lambda>(env, pick, max_pages, s). length (queued_urls s)])"
    by simp
next
  fix env :: "'a crawl_env" and pick :: "ustr list \<Rightarrow> nat" and max_pages :: int
    and s :: "'a crawl_state" and i current_url s1
  assume c: "queued_urls s \<noteq> [] \<and> int (length (visited_urls s)) < max_pages"
    and i: "i = pick (queued_urls s) mod length (queued_urls s)"
    and s1: "s1 = s\<lparr>queued_urls := take i (queued_urls s) @ drop (Suc i) (queued_urls s)\<rparr>"
  from c i have "i < length (queued_urls s)" by simp
  then have "length (take i (queued_urls s) @ drop (Suc i) (queued_urls s)) < length (queued_urls s)"
    by simp
  with s1 show "((env, pick, max_pages, s1), (env, pick, max_pages, s)) \<in>
      measures [\<lambda>(env, pick, max_pages, s). nat (max_pages - int (length (visited_urls s))),
                \<lambda>(env, pick, max_pages, s). length (queued_urls s)]"
    by simp
next
  fix env :: "'a crawl_env" and pick :: "ustr list \<Rightarrow> nat" and max_pages :: int
    and s :: "'a crawl_state" and i current_url s1 s2
  assume c: "queued_urls s \<noteq> [] \<and> int (length (visited_urls s)) < max_pages"
    and s1: "s1 = s\<lparr>queued_urls := take i (queued_urls s) @ drop (Suc i) (queued_urls s)\<rparr>"
    and n: "current_url \<notin> set (visited_urls s1)"
    and p: "crawl_page env current_url (s1\<lparr>visited_urls := set_add current_url (visited_urls s1)\<rparr>) = Some s2"
  from p have "visited_urls s2 = set_add current_url (visited_urls s1)"
    by (auto simp: crawl_page_def Let_def split: option.splits if_splits prod.splits)
  with n s1 have "length (visited_urls s2) = Suc (length (visited_urls s))"
    by (simp add: set_add_def)
  with c show "((env, pick, max_pages, s2), (env, pick, max_pages, s)) \<in>
      measures [\<lambda>(env, pick, max_pages, s). nat (max_pages - int (length (visited_urls s))),
                \<lambda>(env, pick, max_pages, s). length (queued_urls s)]"
    by simp
qed

declare crawl_loop.simps [simp del]

text \<open>
  \<open>crawl_website\<close>: the loop from the seed, with nothing visited and nothing counted.
  \<open>crawl_run\<close> is the state in which the loop ends, \<open>crawl_website\<close> the count the
  source returns.
\<close>

definition crawl_run ::
    "'c crawl_env \<Rightarrow> (ustr list \<Rightarrow> nat) \<Rightarrow> 'c \<Rightarrow> ustr \<Rightarrow> int \<Rightarrow> 'c crawl_state option" where
  "crawl_run env pick coll start_url max_pages =
     crawl_loop env pick max_pages
       \<lparr>visited_urls = [], queued_urls = [start_url], processed_count = 0, collection = coll\<rparr>"

definition crawl_website ::
    "'c crawl_env \<Rightarrow> (ustr list \<Rightarrow> nat) \<Rightarrow> 'c \<Rightarrow> ustr \<Rightarrow> int \<Rightarrow> nat option" where
  "crawl_website env pick coll start_url max_pages =
     map_option processed_count (crawl_run env pick coll start_url max_pages)"

text \<open>
  The pages the crawl indexes: fetched with status 200 and a non-empty body, and with an
  extracted text of more than 500 characters.
\<close>

definition page_text :: "'c crawl_env \<Rightarrow> ustr \<Rightarrow> ustr option" where
  "page_text env u =
     (case fetch_url env u of
        None \<Rightarrow> None
      | Some html \<Rightarrow> if html = [] then None else Some (extract_text_from_html env html))"

definition indexable :: "'c crawl_env \<Rightarrow> ustr \<Rightarrow> bool" where
  "indexable env u = (case page_text env u of None \<Rightarrow> False | Some t \<Rightarrow> 500 < length t)"

text \<open>The rows a page's document is written as: its chunks, processed, in order.\<close>

definition page_chunks :: "'c crawl_env \<Rightarrow> ustr \<Rightarrow> ustr list \<Rightarrow> processed_chunk list" where
  "page_chunks env u chunks =
     map (\<lambda>(i, chunk). process_chunk env chunk (int i) u) (enumerate 0 chunks)"

text \<open>
  The invariant of the crawl loop: the visited set has no duplicates and stays within the
  cap, and the count is the number of visited pages that are indexable.
\<close>

definition crawl_inv :: "'c crawl_env \<Rightarrow> int \<Rightarrow> 'c crawl_state \<Rightarrow> bool" where
  "crawl_inv env max_pages s \<longleftrightarrow>
     distinct (visited_urls s) \<and> length (visited_urls s) \<le> nat max_pages \<and>
     processed_count s = length (filter (indexable env) (visited_urls s))"

subsection \<open>A small site to run the crawler on\<close>

text \<open>
  URLs are two characters, a host and a page: \<open>a1\<close>, \<open>a2\<close>, \<open>b1\<close>. A page's HTML is the
  row of the URLs it links to. Page \<open>a1\<close> links to \<open>a2\<close>, to \<open>b1\<close> on another host and to
  \<open>a2\<close> again; page \<open>a2\<close> links back to \<open>a1\<close>; every other URL answers 404. The text of
  \<open>a1\<close> has 501 characters, that of \<open>a2\<close> has two.
\<close>

fun url_pairs :: "ustr \<Rightarrow> ustr list" where
  "url_pairs (h # p # rest) = [h, p] # url_pairs rest"
| "url_pairs _ = []"

definition site_get :: "ustr \<Rightarrow> error + nat \<times> ustr" where
  "site_get u =
     (if u = ascii ''a1'' then Inr (200, ascii ''a2b1a2'')
      else if u = ascii ''a2'' then Inr (200, ascii ''a1'')
      else Inr (404, []))"

definition site_text :: "ustr \<Rightarrow> ustr" where
  "site_text html = (if html = ascii ''a2b1a2'' then replicate 501 120 else ascii ''hi'')"

text \<open>The site with a store whose \<open>add\<close> is the keyed upsert.\<close>

definition site_env :: "keyed_store crawl_env" where
  "site_env =
     \<lparr>http_get = site_get,
      extract_text_from_html = site_text,
      anchor_hrefs = url_pairs,
      urljoin = (\<lambda>base href. href),
      netloc = take 1,
      url_path = drop 1,
      get_title = (\<lambda>chunk u. ascii ''title''),
      aembed_query = (\<lambda>tx. Inl (Error [])),
      utc_now = (\<lambda>u i. ascii ''2025-01-01T00:00:00+00:00''),
      collection_add = upsert_add\<rparr>"

text \<open>The same site with a store that refuses every write.\<close>

definition failing_add :: "keyed_store \<Rightarrow> ustr \<Rightarrow> row \<Rightarrow> error + keyed_store" where
  "failing_add store k r = Inl (Error (ascii ''write failed''))"

definition site_env_failing :: "keyed_store crawl_env" where
  "site_env_failing = site_env\<lparr>collection_add := failing_add\<rparr>"


section \<open>The query assembler (rag_utils.py, \<open>query_rag_system\<close>)\<close>

text \<open>\<open>sep.join(parts)\<close>.\<close>

fun join :: "'a list \<Rightarrow> 'a list list \<Rightarrow> 'a list" where
  "join sep [] = []"
| "join sep [x] = x"
| "join sep (x # y # rest) = x @ sep @ join sep (y # rest)"

text \<open>
  \<open>s.replace(old, new)\<close>: one pass from the left over the occurrences of \<open>old\<close> that do
  not overlap; the text that a replacement leaves is not scanned again. An empty \<open>old\<close>
  matches before every character and at the end.
\<close>

function replace :: "'a list \<Rightarrow> 'a list \<Rightarrow> 'a list \<Rightarrow> 'a list" where
  "replace old new s =
     (if old = [] then new @ concat (map (\<lambda>c. c # new) s)
      else if s = [] then []
      else if prefix old s then new @ replace old new (drop (length old) s)
      else hd s # replace old new (tl s))"
  by pat_completeness auto

termination replace
proof (relation "measure (\<lambda>(old, new, s). length s)")
  show "wf (measure (\<lambda>(old :: 'a list, new :: 'a list, s :: 'a list). length s))"
    by simp
next
  fix old new s :: "'a list"
  assume "old \<noteq> []" "s \<noteq> []"
  then show "((old, new, drop (length old) s), (old, new, s)) \<in> measure (\<lambda>(old, new, s). length s)"
    by simp
next
  fix old new s :: "'a list"
  assume "s \<noteq> []"
  then show "((old, new, tl s), (old, new, s)) \<in> measure (\<lambda>(old, new, s). length s)"
    by simp
qed

declare replace.simps [simp del]

text \<open>
  The number of places at which \<open>sub\<close> occurs in a string: "the answer contains exactly
  one copy" is \<open>count_sub disclaimer_text answer = 1\<close>.
\<close>

fun count_sub :: "'a list \<Rightarrow> 'a list \<Rightarrow> nat" where
  "count_sub sub [] = (if sub = [] then 1 else 0)"
| "count_sub sub (x # xs) = (if prefix sub (x # xs) then 1 else 0) + count_sub sub xs"

subsection \<open>The string literals\<close>

text \<open>
  The two separators. The source writes them with a doubled backslash, \<open>"\\n"\<close> and
  \<open>"\\n\\n"\<close>, so they are a backslash and the letter \<open>n\<close>, not newlines.
\<close>

definition sep1 :: ustr where
  "sep1 = [92, 110]"

definition sep2 :: ustr where
  "sep2 = [92, 110, 92, 110]"

text \<open>The literal \<open>system_prompt\<close> (rag_utils.py, lines 93 to 113), 2029 code points.\<close>

definition system_prompt :: ustr where
  "system_prompt =
     [3588, 3640, 3603, 3588, 3639, 3629, 3612, 3641, 3657, 3594, 3656, 3623, 3618, 32, 65, 73, 32, 3629,
      3633, 3592, 3593, 3619, 3636, 3618, 3632, 3586, 3629, 3591, 32, 65, 103, 110, 111, 115, 32, 72,
      101, 97, 108, 116, 104, 32, 3607, 3637, 3656, 3648, 3594, 3637, 3656, 3618, 3623, 3594, 3634, 3597,
      3604, 3657, 3634, 3609, 3585, 3634, 3619, 3651, 3627, 3657, 3586, 3657, 3629, 3617, 3641, 3621, 3626, 3640,
      3586, 3616, 3634, 3614, 3592, 3634, 3585, 3585, 3619, 3632, 3607, 3641, 3657, 3606, 3634, 3617, 3605, 3629,
      3610, 3607, 3634, 3591, 3585, 3634, 3619, 3649, 3614, 3607, 3618, 3660, 10, 3588, 3640, 3603, 3652, 3604,
      3657, 3619, 3633, 3610, 3588, 3635, 3606, 3634, 3617, 3592, 3634, 3585, 3612, 3641, 3657, 3651, 3594, 3657,
      32, 3649, 3621, 3632, 3617, 3637, 3586, 3657, 3629, 3617, 3641, 3621, 3629, 3657, 3634, 3591, 3629, 3636,
      3591, 3592, 3634, 3585, 3585, 3619, 3632, 3607, 3641, 3657, 3607, 3637, 3656, 3649, 3614, 3607, 3618, 3660,
      3652, 3604, 3657, 3605, 3629, 3610, 3652, 3623, 3657, 3651, 3609, 3615, 3629, 3619, 3633, 3656, 3617, 3586,
      3629, 3591, 32, 65, 103, 110, 111, 115, 32, 72, 101, 97, 108, 116, 104, 10, 10, 42,
      42, 3588, 3635, 3649, 3609, 3632, 3609, 3635, 3626, 3635, 3588, 3633, 3597, 58, 42, 42, 10, 49,
      46, 32, 32, 42, 42, 3605, 3629, 3610, 3648, 3611, 3655, 3609, 3616, 3634, 3625, 3634, 3652, 3607,
      3618, 3648, 3626, 3617, 3629, 42, 42, 32, 3605, 3634, 3617, 3616, 3634, 3625, 3634, 3586, 3629, 3591,
      3588, 3635, 3606, 3634, 3617, 3586, 3629, 3591, 3612, 3641, 3657, 3651, 3594, 3657, 10, 50, 46, 32,
      32, 42, 42, 3614, 3636, 3592, 3634, 3619, 3603, 3634, 3611, 3619, 3632, 3623, 3633, 3605, 3636, 3585,
      3634, 3619, 3626, 3609, 3607, 3609, 3634, 3585, 3656, 3629, 3609, 3627, 3609, 3657, 3634, 32, 40, 3606,
      3657, 3634, 3617, 3637, 41, 32, 3648, 3614, 3639, 3656, 3629, 3607, 3635, 3588, 3623, 3634, 3617, 3648,
      3586, 3657, 3634, 3651, 3592, 3610, 3619, 3636, 3610, 3607, 3586, 3629, 3591, 3588, 3635, 3606, 3634, 3617,
      3611, 3633, 3592, 3592, 3640, 3610, 3633, 3609, 42, 42, 10, 51, 46, 32, 32, 42, 42, 3651,
      3594, 3657, 3586, 3657, 3629, 3617, 3641, 3621, 3592, 3634, 3585, 32, 34, 3648, 3609, 3639, 3657, 3629,
      3627, 3634, 3629, 3657, 3634, 3591, 3629, 3636, 3591, 34, 32, 3607, 3637, 3656, 3651, 3627, 3657, 3617,
      3634, 3648, 3607, 3656, 3634, 3609, 3633, 3657, 3609, 42, 42, 32, 3651, 3609, 3585, 3634, 3619, 3605,
      3629, 3610, 3588, 3635, 3606, 3634, 3617, 3611, 3633, 3592, 3592, 3640, 3610, 3633, 3609, 32, 3627, 3657,
      3634, 3617, 3651, 3594, 3657, 3588, 3623, 3634, 3617, 3619, 3641, 3657, 3626, 3656, 3623, 3609, 3605, 3633,
      3623, 3627, 3619, 3639, 3629, 3586, 3657, 3629, 3617, 3641, 3621, 3592, 3634, 3585, 3616, 3634, 3618, 3609,
      3629, 3585, 3650, 3604, 3618, 3648, 3604, 3655, 3604, 3586, 3634, 3604, 10, 52, 46, 32, 32, 42,
      42, 3626, 3623, 3617, 3610, 3607, 3610, 3634, 3607, 3648, 3611, 3655, 3609, 3612, 3641, 3657, 3594, 3656,
      3623, 3618, 3607, 3637, 3656, 3651, 3627, 3657, 3586, 3657, 3629, 3617, 3641, 3621, 32, 40, 3652, 3617,
      3656, 3651, 3594, 3656, 3649, 3614, 3607, 3618, 3660, 41, 58, 42, 42, 32, 3626, 3619, 3640, 3611,
      3588, 3635, 3605, 3629, 3610, 3592, 3634, 3585, 3649, 3614, 3607, 3618, 3660, 3651, 3609, 3648, 3609, 3639,
      3657, 3629, 3627, 3634, 3629, 3657, 3634, 3591, 3629, 3636, 3591, 3629, 3618, 3656, 3634, 3591, 3606, 3641,
      3585, 3605, 3657, 3629, 3591, 3649, 3621, 3632, 3648, 3586, 3657, 3634, 3651, 3592, 3591, 3656, 3634, 3618,
      10, 53, 46, 32, 32, 42, 42, 3627, 3634, 3585, 3617, 3637, 3627, 3621, 3634, 3618, 3588, 3635,
      3605, 3629, 3610, 3592, 3634, 3585, 3649, 3614, 3607, 3618, 3660, 3607, 3637, 3656, 3648, 3585, 3637, 3656,
      3618, 3623, 3586, 3657, 3629, 3591, 58, 42, 42, 32, 3614, 3618, 3634, 3618, 3634, 3617, 3626, 3633,
      3591, 3648, 3588, 3619, 3634, 3632, 3627, 3660, 3586, 3657, 3629, 3617, 3641, 3621, 3648, 3627, 3621, 3656,
      3634, 3609, 3633, 3657, 3609, 3648, 3614, 3639, 3656, 3629, 3651, 3627, 3657, 3588, 3635, 3605, 3629, 3610,
      3607, 3637, 3656, 3588, 3619, 3629, 3610, 3588, 3621, 3640, 3617, 3607, 3637, 3656, 3626, 3640, 3604, 32,
      3606, 3657, 3634, 3588, 3635, 3605, 3629, 3610, 3586, 3633, 3604, 3649, 3618, 3657, 3591, 3585, 3633, 3609,
      32, 3651, 3627, 3657, 3619, 3632, 3610, 3640, 3623, 3656, 3634, 3617, 3637, 3588, 3623, 3634, 3617, 3648,
      3627, 3655, 3609, 3607, 3637, 3656, 3649, 3605, 3585, 3605, 3656, 3634, 3591, 3585, 3633, 3609, 3651, 3609,
      3648, 3609, 3639, 3657, 3629, 3627, 3634, 3629, 3657, 3634, 3591, 3629, 3636, 3591, 10, 54, 46, 32,
      32, 42, 42, 3648, 3609, 3657, 3609, 3588, 3623, 3634, 3617, 3649, 3617, 3656, 3609, 3618, 3635, 58,
      42, 42, 32, 3605, 3629, 3610, 3651, 3627, 3657, 3605, 3619, 3591, 3611, 3619, 3632, 3648, 3604, 3655,
      3609, 32, 3585, 3619, 3632, 3594, 3633, 3610, 32, 3649, 3621, 3632, 3648, 3611, 3655, 3609, 3586, 3657,
      3629, 3648, 3607, 3655, 3592, 3592, 3619, 3636, 3591, 3605, 3634, 3617, 3648, 3609, 3639, 3657, 3629, 3627,
      3634, 3629, 3657, 3634, 3591, 3629, 3636, 3591, 10, 55, 46, 32, 32, 42, 42, 3606, 3657, 3634,
      3586, 3657, 3629, 3617, 3641, 3621, 3652, 3617, 3656, 3648, 3614, 3637, 3618, 3591, 3614, 3629, 58, 42,
      42, 32, 3627, 3634, 3585, 3648, 3609, 3639, 3657, 3629, 3627, 3634, 3629, 3657, 3634, 3591, 3629, 3636,
      3591, 3652, 3617, 3656, 3648, 3585, 3637, 3656, 3618, 3623, 3586, 3657, 3629, 3591, 3585, 3633, 3610, 3588,
      3635, 3606, 3634, 3617, 3611, 3633, 3592, 3592, 3640, 3610, 3633, 3609, 32, 3627, 3619, 3639, 3629, 3652,
      3617, 3656, 3617, 3637, 3586, 3657, 3629, 3617, 3641, 3621, 3648, 3614, 3637, 3618, 3591, 3614, 3629, 3607,
      3637, 3656, 3592, 3632, 3605, 3629, 3610, 3652, 3604, 3657, 3629, 3618, 3656, 3634, 3591, 3617, 3633, 3656,
      3609, 3651, 3592, 32, 3651, 3627, 3657, 3605, 3629, 3610, 3623, 3656, 3634, 32, 34, 3586, 3629, 3629,
      3616, 3633, 3618, 3588, 3656, 3632, 47, 3588, 3619, 3633, 3610, 32, 3604, 3636, 3593, 3633, 3609, 3652,
      3617, 3656, 3614, 3610, 3586, 3657, 3629, 3617, 3641, 3621, 3607, 3637, 3656, 3648, 3585, 3637, 3656, 3618,
      3623, 3586, 3657, 3629, 3591, 3650, 3604, 3618, 3605, 3619, 3591, 3585, 3633, 3610, 3588, 3635, 3606, 3634,
      3617, 3586, 3629, 3591, 3588, 3640, 3603, 3651, 3609, 3600, 3634, 3609, 3586, 3657, 3629, 3617, 3641, 3621,
      32, 3603, 32, 3586, 3603, 3632, 3609, 3637, 3657, 34, 32, 3627, 3619, 3639, 3629, 32, 34, 3586,
      3657, 3629, 3617, 3641, 3621, 3607, 3637, 3656, 3617, 3637, 3629, 3618, 3641, 3656, 3629, 3634, 3592, 3652,
      3617, 3656, 3648, 3614, 3637, 3618, 3591, 3614, 3629, 3607, 3637, 3656, 3592, 3632, 3651, 3627, 3657, 3588,
      3635, 3605, 3629, 3610, 3607, 3637, 3656, 3594, 3633, 3604, 3648, 3592, 3609, 3626, 3635, 3627, 3619, 3633,
      3610, 3588, 3635, 3606, 3634, 3617, 3609, 3637, 3657, 3588, 3656, 3632, 47, 3588, 3619, 3633, 3610, 34,
      10, 56, 46, 32, 32, 42, 42, 3588, 3623, 3634, 3617, 3611, 3621, 3629, 3604, 3616, 3633, 3618,
      3649, 3621, 3632, 3585, 3634, 3619, 3611, 3599, 3636, 3648, 3626, 3608, 3588, 3623, 3634, 3617, 3619, 3633,
      3610, 3612, 3636, 3604, 3594, 3629, 3610, 58, 42, 42, 10, 32, 32, 32, 32, 42, 32, 32,
      32, 42, 42, 3607, 3640, 3585, 3588, 3619, 3633, 3657, 3591, 3607, 3637, 3656, 3605, 3629, 3610, 3588,
      3635, 3606, 3634, 3617, 42, 42, 32, 3651, 3627, 3657, 3611, 3636, 3604, 3607, 3657, 3634, 3618, 3588,
      3635, 3605, 3629, 3610, 3604, 3657, 3623, 3618, 3586, 3657, 3629, 3588, 3623, 3634, 3617, 3609, 3637, 3657,
      3648, 3626, 3617, 3629, 58, 32, 34, 3586, 3657, 3629, 3617, 3641, 3621, 3609, 3637, 3657, 3648, 3611,
      3655, 3609, 3648, 3614, 3637, 3618, 3591, 3586, 3657, 3629, 3617, 3641, 3621, 3648, 3610, 3639, 3657, 3629,
      3591, 3605, 3657, 3609, 3607, 3637, 3656, 3626, 3619, 3640, 3611, 3592, 3634, 3585, 3585, 3619, 3632, 3607,
      3641, 3657, 3606, 3634, 3617, 3605, 3629, 3610, 3651, 3609, 3615, 3629, 3619, 3633, 3656, 3617, 32, 65,
      103, 110, 111, 115, 32, 72, 101, 97, 108, 116, 104, 32, 3649, 3621, 3632, 3652, 3617, 3656,
      3626, 3634, 3617, 3634, 3619, 3606, 3651, 3594, 3657, 3649, 3607, 3609, 3588, 3635, 3649, 3609, 3632, 3609,
      3635, 32, 3585, 3634, 3619, 3623, 3636, 3609, 3636, 3592, 3593, 3633, 3618, 32, 3627, 3619, 3639, 3629,
      3585, 3634, 3619, 3619, 3633, 3585, 3625, 3634, 3592, 3634, 3585, 3649, 3614, 3607, 3618, 3660, 3612, 3641,
      3657, 3648, 3594, 3637, 3656, 3618, 3623, 3594, 3634, 3597, 3652, 3604, 3657, 32, 3627, 3634, 3585, 3588,
      3640, 3603, 3617, 3637, 3586, 3657, 3629, 3585, 3633, 3591, 3623, 3621, 3604, 3657, 3634, 3609, 3626, 3640,
      3586, 3616, 3634, 3614, 32, 3585, 3619, 3640, 3603, 3634, 3611, 3619, 3638, 3585, 3625, 3634, 3649, 3614,
      3607, 3618, 3660, 3650, 3604, 3618, 3605, 3619, 3591, 3609, 3632, 3588, 3632, 47, 3588, 3619, 3633, 3610,
      34, 10, 32, 32, 32, 32, 42, 32, 32, 32, 3627, 3657, 3634, 3617, 3651, 3627, 3657, 3588,
      3635, 3649, 3609, 3632, 3609, 3635, 3607, 3634, 3591, 3585, 3634, 3619, 3649, 3614, 3607, 3618, 3660, 3626,
      3656, 3623, 3609, 3610, 3640, 3588, 3588, 3621, 32, 3627, 3657, 3634, 3617, 3623, 3636, 3609, 3636, 3592,
      3593, 3633, 3618, 3650, 3619, 3588, 32, 3627, 3619, 3639, 3629, 3649, 3609, 3632, 3609, 3635, 3585, 3634,
      3619, 3619, 3633, 3585, 3625, 3634, 3607, 3637, 3656, 3648, 3593, 3614, 3634, 3632, 3648, 3592, 3634, 3632,
      3592, 3591, 10, 57, 46, 32, 32, 42, 42, 3629, 3618, 3656, 3634, 3629, 3657, 3634, 3591, 3629,
      3636, 3591, 3606, 3638, 3591, 32, 34, 3648, 3609, 3639, 3657, 3629, 3627, 3634, 3629, 3657, 3634, 3591,
      3629, 3636, 3591, 34, 32, 3627, 3619, 3639, 3629, 32, 34, 3611, 3619, 3632, 3623, 3633, 3605, 3636,
      3585, 3634, 3619, 3626, 3609, 3607, 3609, 3634, 34, 32, 3650, 3604, 3618, 3605, 3619, 3591, 42, 42,
      32, 3651, 3609, 3588, 3635, 3605, 3629, 3610, 3586, 3629, 3591, 3588, 3640, 3603, 32, 3649, 3605, 3656,
      3651, 3627, 3657, 3605, 3629, 3610, 3648, 3627, 3617, 3639, 3629, 3609, 3588, 3640, 3603, 3617, 3637, 3588,
      3623, 3634, 3617, 3619, 3641, 3657, 3609, 3633, 3657, 3609, 3629, 3618, 3641, 3656, 3649, 3621, 3657, 3623,
      32, 3650, 3604, 3618, 3652, 3617, 3656, 3617, 3637, 3588, 3635, 3623, 3656, 3634, 32, 39, 3611, 3619,
      3632, 3623, 3633, 3605, 3636, 3585, 3634, 3619, 3626, 3609, 3607, 3609, 3634, 39, 10, 10, 42, 42,
      3619, 3641, 3611, 3649, 3610, 3610, 3585, 3634, 3619, 3605, 3629, 3610, 58, 42, 42, 10, 91, 3588,
      3635, 3605, 3629, 3610, 3607, 3637, 3656, 3626, 3619, 3640, 3611, 3592, 3634, 3585, 3648, 3609, 3639, 3657,
      3629, 3627, 3634, 3629, 3657, 3634, 3591, 3629, 3636, 3591, 32, 3650, 3604, 3618, 3614, 3636, 3592, 3634,
      3619, 3603, 3634, 3610, 3619, 3636, 3610, 3607, 3592, 3634, 3585, 3611, 3619, 3632, 3623, 3633, 3605, 3636,
      3585, 3634, 3619, 3626, 3609, 3607, 3609, 3634, 32, 40, 3606, 3657, 3634, 3617, 3637, 41, 93, 10,
      10, 3586, 3657, 3629, 3617, 3641, 3621, 3609, 3637, 3657, 3648, 3611, 3655, 3609, 3648, 3614, 3637, 3618,
      3591, 3586, 3657, 3629, 3617, 3641, 3621, 3648, 3610, 3639, 3657, 3629, 3591, 3605, 3657, 3609, 3607, 3637,
      3656, 3626, 3619, 3640, 3611, 3592, 3634, 3585, 3585, 3619, 3632, 3607, 3641, 3657, 3606, 3634, 3617, 3605,
      3629, 3610, 3651, 3609, 3615, 3629, 3619, 3633, 3656, 3617, 32, 65, 103, 110, 111, 115, 32, 72,
      101, 97, 108, 116, 104, 32, 3649, 3621, 3632, 3652, 3617, 3656, 3626, 3634, 3617, 3634, 3619, 3606,
      3651, 3594, 3657, 3649, 3607, 3609, 3588, 3635, 3649, 3609, 3632, 3609, 3635, 32, 3585, 3634, 3619, 3623,
      3636, 3609, 3636, 3592, 3593, 3633, 3618, 32, 3627, 3619, 3639, 3629, 3585, 3634, 3619, 3619, 3633, 3585,
      3625, 3634, 3592, 3634, 3585, 3649, 3614, 3607, 3618, 3660, 3612, 3641, 3657, 3648, 3594, 3637, 3656, 3618,
      3623, 3594, 3634, 3597, 3652, 3604, 3657, 32, 3627, 3634, 3585, 3588, 3640, 3603, 3617, 3637, 3586, 3657,
      3629, 3585, 3633, 3591, 3623, 3621, 3604, 3657, 3634, 3609, 3626, 3640, 3586, 3616, 3634, 3614, 32, 3585,
      3619, 3640, 3603, 3634, 3611, 3619, 3638, 3585, 3625, 3634, 3649, 3614, 3607, 3618, 3660, 3650, 3604, 3618,
      3605, 3619, 3591, 3609, 3632, 3588, 3632, 47, 3588, 3619, 3633, 3610, 10]"

text \<open>The literal \<open>disclaimer_text\<close> (line 136), the canonical disclaimer; \<open>error_disclaimer\<close> (line 160) is the same string, 209 code points.\<close>

definition disclaimer_text :: ustr where
  "disclaimer_text =
     [3586, 3657, 3629, 3617, 3641, 3621, 3609, 3637, 3657, 3648, 3611, 3655, 3609, 3648, 3614, 3637, 3618, 3591,
      3586, 3657, 3629, 3617, 3641, 3621, 3648, 3610, 3639, 3657, 3629, 3591, 3605, 3657, 3609, 3607, 3637, 3656,
      3626, 3619, 3640, 3611, 3592, 3634, 3585, 3585, 3619, 3632, 3607, 3641, 3657, 3606, 3634, 3617, 3605, 3629,
      3610, 3651, 3609, 3615, 3629, 3619, 3633, 3656, 3617, 32, 65, 103, 110, 111, 115, 32, 72, 101,
      97, 108, 116, 104, 32, 3649, 3621, 3632, 3652, 3617, 3656, 3626, 3634, 3617, 3634, 3619, 3606, 3651,
      3594, 3657, 3649, 3607, 3609, 3588, 3635, 3649, 3609, 3632, 3609, 3635, 32, 3585, 3634, 3619, 3623, 3636,
      3609, 3636, 3592, 3593, 3633, 3618, 32, 3627, 3619, 3639, 3629, 3585, 3634, 3619, 3619, 3633, 3585, 3625,
      3634, 3592, 3634, 3585, 3649, 3614, 3607, 3618, 3660, 3612, 3641, 3657, 3648, 3594, 3637, 3656, 3618, 3623,
      3594, 3634, 3597, 3652, 3604, 3657, 32, 3627, 3634, 3585, 3588, 3640, 3603, 3617, 3637, 3586, 3657, 3629,
      3585, 3633, 3591, 3623, 3621, 3604, 3657, 3634, 3609, 3626, 3640, 3586, 3616, 3634, 3614, 32, 3585, 3619,
      3640, 3603, 3634, 3611, 3619, 3638, 3585, 3625, 3634, 3649, 3614, 3607, 3618, 3660, 3650, 3604, 3618, 3605,
      3619, 3591, 3609, 3632, 3588, 3632, 47, 3588, 3619, 3633, 3610]"

text \<open>The "no relevant information" answer (lines 141 and 150), 84 code points.\<close>

definition no_info_text :: ustr where
  "no_info_text =
     [3586, 3629, 3629, 3616, 3633, 3618, 3588, 3656, 3632, 47, 3588, 3619, 3633, 3610, 32, 3604, 3636, 3593,
      3633, 3609, 3652, 3617, 3656, 3614, 3610, 3586, 3657, 3629, 3617, 3641, 3621, 3607, 3637, 3656, 3648, 3585,
      3637, 3656, 3618, 3623, 3586, 3657, 3629, 3591, 3650, 3604, 3618, 3605, 3619, 3591, 3585, 3633, 3610, 3588,
      3635, 3606, 3634, 3617, 3586, 3629, 3591, 3588, 3640, 3603, 3651, 3609, 3600, 3634, 3609, 3586, 3657, 3629,
      3617, 3641, 3621, 32, 3603, 32, 3586, 3603, 3632, 3609, 3637, 3657]"

text \<open>The "not enough information" answer (line 143), 72 code points.\<close>

definition insufficient_text :: ustr where
  "insufficient_text =
     [3586, 3657, 3629, 3617, 3641, 3621, 3607, 3637, 3656, 3617, 3637, 3629, 3618, 3641, 3656, 3629, 3634, 3592,
      3652, 3617, 3656, 3648, 3614, 3637, 3618, 3591, 3614, 3629, 3607, 3637, 3656, 3592, 3632, 3651, 3627, 3657,
      3588, 3635, 3605, 3629, 3610, 3607, 3637, 3656, 3594, 3633, 3604, 3648, 3592, 3609, 3626, 3635, 3627, 3619,
      3633, 3610, 3588, 3635, 3606, 3634, 3617, 3609, 3637, 3657, 3588, 3656, 3632, 47, 3588, 3619, 3633, 3610]"

text \<open>The heading of the history block (line 118), 24 code points.\<close>

definition history_header :: ustr where
  "history_header =
     [3611, 3619, 3632, 3623, 3633, 3605, 3636, 3585, 3634, 3619, 3626, 3609, 3607, 3609, 3634, 3585, 3656, 3629,
      3609, 3627, 3609, 3657, 3634, 58]"

text \<open>The role label of a user turn (line 120), 6 code points.\<close>

definition label_user :: ustr where
  "label_user =
     [3612, 3641, 3657, 3651, 3594, 3657]"

text \<open>The role label of any other turn (line 120), 10 code points.\<close>

definition label_assistant :: ustr where
  "label_assistant =
     [3612, 3641, 3657, 3594, 3656, 3623, 3618, 32, 65, 73]"

text \<open>The heading of the context block (line 127); it ends in a backslash and an \<open>n\<close>, 56 code points.\<close>

definition context_header :: ustr where
  "context_header =
     [3648, 3609, 3639, 3657, 3629, 3627, 3634, 3629, 3657, 3634, 3591, 3629, 3636, 3591, 3592, 3634, 3585, 3585,
      3619, 3632, 3607, 3641, 3657, 3606, 3634, 3617, 3649, 3614, 3607, 3618, 3660, 32, 40, 3626, 3635, 3627,
      3619, 3633, 3610, 3588, 3635, 3606, 3634, 3617, 3611, 3633, 3592, 3592, 3640, 3610, 3633, 3609, 41, 58,
      92, 110]"

text \<open>The text that stands for an empty context (line 127), 51 code points.\<close>

definition no_context_text :: ustr where
  "no_context_text =
     [3652, 3617, 3656, 3614, 3610, 3586, 3657, 3629, 3617, 3641, 3621, 3629, 3657, 3634, 3591, 3629, 3636, 3591,
      3607, 3637, 3656, 3648, 3585, 3637, 3656, 3618, 3623, 3586, 3657, 3629, 3591, 3650, 3604, 3618, 3605, 3619,
      3591, 3626, 3635, 3627, 3619, 3633, 3610, 3588, 3635, 3606, 3634, 3617, 3609, 3637, 3657]"

text \<open>The heading of the question (line 128): a backslash and an \<open>n\<close>, the heading, a newline, 26 code points.\<close>

definition question_header :: ustr where
  "question_header =
     [92, 110, 3588, 3635, 3606, 3634, 3617, 3611, 3633, 3592, 3592, 3640, 3610, 3633, 3609, 3586, 3629, 3591,
      3612, 3641, 3657, 3651, 3594, 3657, 58, 10]"

text \<open>The start of the generic error answer (line 162), 40 code points.\<close>

definition error_prefix :: ustr where
  "error_prefix =
     [3648, 3585, 3636, 3604, 3586, 3657, 3629, 3612, 3636, 3604, 3614, 3621, 3634, 3604, 3651, 3609, 3585, 3634,
      3619, 3611, 3619, 3632, 3617, 3623, 3621, 3612, 3621, 3588, 3635, 3606, 3634, 3617, 3586, 3629, 3591, 3588,
      3640, 3603, 58, 32]"

text \<open>The title of a context line whose record has none (line 83), 13 code points.\<close>

definition default_ref_title :: ustr where
  "default_ref_title =
     [3586, 3657, 3629, 3617, 3641, 3621, 3629, 3657, 3634, 3591, 3629, 3636, 3591]"

subsection \<open>Data\<close>

text \<open>A chat turn, the dictionary \<open>{"role": ..., "content": ...}\<close>.\<close>

record chat_msg =
  msg_role :: ustr
  msg_content :: ustr

text \<open>One entry of the result's \<open>sources\<close>; the values are whatever the metadata holds.\<close>

record source =
  source_title :: pyval
  source_url :: pyval
  source_summary :: pyval

record rag_result =
  answer :: ustr
  sources :: "source list"

text \<open>
  What \<open>collection.query\<close> returns, as far as the source reads it: for each query embedding
  (there is one) the list of documents and the list of their metadata.
\<close>

record query_results =
  documents :: "ustr list list"
  metadatas :: "metadata list list"

text \<open>
  The collaborators of the query path: the embedding service, the store's nearest-neighbour
  query and the generation service. Each returns a value or raises.
\<close>

record query_env =
  embed_query :: "ustr \<Rightarrow> error + embedding"
  collection_query :: "embedding \<Rightarrow> int \<Rightarrow> error + query_results"
  llm_invoke :: "ustr \<Rightarrow> error + ustr"

subsection \<open>The operation\<close>

text \<open>How an f-string formats a metadata value.\<close>

definition py_str :: "pyval \<Rightarrow> ustr" where
  "py_str v = (case v of StrV s \<Rightarrow> s | IntV i \<Rightarrow> str_int i)"

text \<open>\<open>metadata.get(key, default)\<close>.\<close>

definition get_or :: "metadata \<Rightarrow> ustr \<Rightarrow> pyval \<Rightarrow> pyval" where
  "get_or md k d = (case md k of Some v \<Rightarrow> v | None \<Rightarrow> d)"

text \<open>The test \<open>results["documents"] and results["documents"][0]\<close>.\<close>

definition retrieved :: "query_results \<Rightarrow> bool" where
  "retrieved results \<longleftrightarrow> documents results \<noteq> [] \<and> hd (documents results) \<noteq> []"

text \<open>
  The pairs the loop over \<open>zip(results["documents"][0], results["metadatas"][0])\<close> runs
  through; \<open>results["metadatas"][0]\<close> raises an IndexError on an empty list.
\<close>

definition retrieved_pairs :: "query_results \<Rightarrow> error + (ustr \<times> metadata) list" where
  "retrieved_pairs results =
     (if retrieved results then
        (case metadatas results of
           [] \<Rightarrow> Inl (Error (ascii ''list index out of range''))
         | ms # _ \<Rightarrow> Inr (zip (hd (documents results)) ms))
      else Inr [])"

definition context_part :: "ustr \<times> metadata \<Rightarrow> ustr" where
  "context_part p =
     (case p of (doc, md) \<Rightarrow>
        ascii ''- '' @ py_str (get_or md (ascii ''title'') (StrV default_ref_title)) @ ascii '': '' @ doc)"

definition source_of :: "ustr \<times> metadata \<Rightarrow> source" where
  "source_of p =
     (case p of (doc, md) \<Rightarrow>
        \<lparr>source_title = get_or md (ascii ''title'') (StrV (ascii ''Unknown title'')),
         source_url = get_or md (ascii ''url'') (StrV (ascii ''#'')),
         source_summary = get_or md (ascii ''summary'') (StrV (ascii ''No summary available''))\<rparr>)"

text \<open>One role-labelled line of the history block.\<close>

definition history_line :: "chat_msg \<Rightarrow> ustr" where
  "history_line msg =
     (if msg_role msg = ascii ''user'' then label_user else label_assistant) @ ascii '': '' @ msg_content msg"

text \<open>The history block: the heading and one line for every message of \<open>chat_history\<close>.\<close>

definition formatted_chat_history :: "chat_msg list \<Rightarrow> ustr" where
  "formatted_chat_history chat_history =
     (if chat_history \<noteq> []
      then join sep1 (history_header # map history_line chat_history) @ sep2
      else [])"

definition build_prompt :: "ustr \<Rightarrow> chat_msg list \<Rightarrow> ustr \<Rightarrow> ustr" where
  "build_prompt context chat_history query =
     join sep2
       [ascii ''System: '' @ system_prompt,
        formatted_chat_history chat_history @ context_header @
          (if context \<noteq> [] then context else no_context_text),
        question_header @ query]"

text \<open>
  Lines 136 to 145: strip the disclaimer from the raw response, put a fallback for an
  empty rest, append the disclaimer.
\<close>

definition final_answer_with_disclaimer :: "ustr \<Rightarrow> bool \<Rightarrow> ustr" where
  "final_answer_with_disclaimer answer_raw no_context =
     (let processed_answer = strip (replace disclaimer_text [] answer_raw);
          processed_answer =
            (if processed_answer = [] \<or> processed_answer = strip disclaimer_text
             then (if no_context then no_info_text else insufficient_text)
             else processed_answer)
      in processed_answer @ sep2 @ disclaimer_text)"

text \<open>The \<open>except\<close> branch: the generic error answer, with \<open>str(e)\<close> in it.\<close>

definition error_answer :: "error \<Rightarrow> rag_result" where
  "error_answer e =
     (case e of Error msg \<Rightarrow>
        \<lparr>answer = error_prefix @ msg @ sep2 @ disclaimer_text, sources = []\<rparr>)"

text \<open>
  \<open>query_rag_system\<close>. The result comes with the list of the prompts that were sent to the
  generation service, in order: the list is empty when the service was not invoked.
\<close>

definition query_rag_system ::
    "query_env \<Rightarrow> ustr \<Rightarrow> chat_msg list \<Rightarrow> int \<Rightarrow> rag_result \<times> ustr list" where
  "query_rag_system env query chat_history num_results =
     (case embed_query env query of
        Inl e \<Rightarrow> (error_answer e, [])
      | Inr query_embedding \<Rightarrow>
          (case collection_query env query_embedding num_results of
             Inl e \<Rightarrow> (error_answer e, [])
           | Inr results \<Rightarrow>
               (case retrieved_pairs results of
                  Inl e \<Rightarrow> (error_answer e, [])
                | Inr pairs \<Rightarrow>
                    (let context_parts = map context_part pairs;
                         found_sources = map source_of pairs;
                         context = join sep1 context_parts;
                         prompt = build_prompt context chat_history query
                     in case llm_invoke env prompt of
                          Inl e \<Rightarrow> (error_answer e, [prompt])
                        | Inr answer_raw \<Rightarrow>
                            (let final = final_answer_with_disclaimer answer_raw (context_parts = [])
                             in if retrieved results
                                then (\<lparr>answer = final, sources = found_sources\<rparr>, [prompt])
                                else (\<lparr>answer = no_info_text @ sep2 @ disclaimer_text,
                                       sources = []\<rparr>, [prompt]))))))"


subsection \<open>Three stores to run the query on\<close>

text \<open>An empty store: the query returns one empty list of documents.\<close>

definition empty_store_env :: query_env where
  "empty_store_env =
     \<lparr>embed_query = (\<lambda>q. Inr []),
      collection_query = (\<lambda>e k. Inr \<lparr>documents = [[]], metadatas = [[]]\<rparr>),
      llm_invoke = (\<lambda>prompt. Inr (ascii ''hello''))\<rparr>"

text \<open>
  A store with one record, and a generation service that answers \<open>raw\<close> to every prompt.
\<close>

definition one_record_env :: "ustr \<Rightarrow> query_env" where
  "one_record_env raw =
     \<lparr>embed_query = (\<lambda>q. Inr []),
      collection_query =
        (\<lambda>e k. Inr \<lparr>documents = [[ascii ''doc'']],
                     metadatas = [[[ascii ''title'' \<mapsto> StrV (ascii ''T'')]]]\<rparr>),
      llm_invoke = (\<lambda>prompt. Inr raw)\<rparr>"

text \<open>
  A response that holds one copy of the disclaimer, between the letter \<open>x\<close> with the
  disclaimer's first character and the rest of the disclaimer.
\<close>

definition split_disclaimer_response :: ustr where
  "split_disclaimer_response =
     [120] @ take 1 disclaimer_text @ disclaimer_text @ drop 1 disclaimer_text"


section \<open>Properties of the chunker\<close>

lemma strip_decomp: "\<exists>w1 w2. (\<forall>c\<in>set w1. isspace c) \<and> (\<forall>c\<in>set w2. isspace c) \<and> s = w1 @ strip s @ w2"
proof -
  let ?a = "takeWhile isspace s"
  let ?r = "dropWhile isspace s"
  let ?b = "rev (takeWhile isspace (rev ?r))"
  have 1: "s = ?a @ ?r" by simp
  have "strip s @ ?b = rev (takeWhile isspace (rev ?r) @ dropWhile isspace (rev ?r))"
    unfolding strip_def rev_append ..
  then have 2: "?r = strip s @ ?b" by simp
  have a: "\<forall>c\<in>set ?a. isspace c" by (auto dest: set_takeWhileD)
  have b: "\<forall>c\<in>set ?b. isspace c" by (auto dest: set_takeWhileD)
  from 1 2 have "s = ?a @ strip s @ ?b" by simp
  with a b show ?thesis by blast
qed

lemma length_strip_le: "length (strip s) \<le> length s"
  using strip_decomp[of s] by (metis length_append le_add1 le_add2 le_trans)

lemma find_last_bound: "find_last sub s = Some i \<Longrightarrow> i + length sub \<le> length s"
proof (induction s arbitrary: i)
  case Nil
  then show ?case by (simp split: if_splits)
next
  case (Cons x xs)
  show ?case
  proof (cases "find_last sub xs")
    case None
    with Cons.prems have "prefix sub (x # xs)" "i = 0" by (simp_all split: if_splits)
    then show ?thesis using prefix_length_le by fastforce
  next
    case (Some j)
    with Cons.prems have "i = Suc j" by simp
    with Cons.IH[OF Some] show ?thesis by simp
  qed
qed

lemma rfind_bound: "0 \<le> rfind sub s \<Longrightarrow> rfind sub s + int (length sub) \<le> int (length s)"
  using find_last_bound[of sub s] by (auto simp: rfind_def split: option.splits)

lemma length_slice_window:
  "0 \<le> a \<Longrightarrow> a \<le> b \<Longrightarrow> b \<le> int (length s) \<Longrightarrow> length (slice s a b) = nat (b - a)"
  by (simp add: slice_def clamp_index_def Let_def)

lemma slice_eq: "0 \<le> a \<Longrightarrow> a \<le> b \<Longrightarrow> b \<le> int (length s) \<Longrightarrow> slice s a b = take (nat b - nat a) (drop (nat a) s)"
  by (simp add: slice_def clamp_index_def Let_def)

lemma slice_from_eq: "0 \<le> a \<Longrightarrow> a \<le> int (length s) \<Longrightarrow> slice_from s a = drop (nat a) s"
  by (auto simp: slice_from_def clamp_index_def min_def)

lemma cut_point_bounds:
  assumes "0 < cs" "0 \<le> start" "start + cs < int (length text)"
  shows "start < cut_point text cs start \<and> cut_point text cs start \<le> start + cs"
proof -
  let ?chunk = "slice text start (start + cs)"
  have len: "int (length ?chunk) = cs"
    using assms by (simp add: length_slice_window)
  have p: "past_30 cs (rfind [10, 10] ?chunk) \<Longrightarrow> 0 < rfind [10, 10] ?chunk \<and> rfind [10, 10] ?chunk + 2 \<le> cs"
    using rfind_bound[of "[10,10]" ?chunk] len assms(1) by (simp add: past_30_def)
  have q: "past_30 cs (rfind [46, 32] ?chunk) \<Longrightarrow> 0 < rfind [46, 32] ?chunk \<and> rfind [46, 32] ?chunk + 2 \<le> cs"
    using rfind_bound[of "[46,32]" ?chunk] len assms(1) by (simp add: past_30_def)
  show ?thesis
    using p q assms(1) by (auto simp: cut_point_def Let_def)
qed


lemma chunk_loop_rule:
  assumes cs: "0 < cs"
    and step: "\<And>s c. 0 \<le> s \<Longrightarrow> s + cs < int (length text) \<Longrightarrow> I s c \<Longrightarrow>
                 I (cut_point text cs s) (add_chunk c (strip (slice text s (cut_point text cs s))))"
  shows "0 \<le> start \<Longrightarrow> start < int (length text) \<Longrightarrow> I start chunks \<Longrightarrow>
     \<exists>s c. 0 \<le> s \<and> s < int (length text) \<and> int (length text) \<le> s + cs \<and> I s c \<and>
           chunk_loop text cs start chunks = Some (c @ [strip (slice_from text s)])"
proof (induction "nat (int (length text) - start)" arbitrary: start chunks rule: less_induct)
  case less
  show ?case
  proof (cases "int (length text) \<le> start + cs")
    case True
    then have "chunk_loop text cs start chunks = Some (chunks @ [strip (slice_from text start)])"
      using less.prems by (subst chunk_loop.simps) simp
    with True less.prems show ?thesis by blast
  next
    case False
    let ?e = "cut_point text cs start"
    let ?c = "add_chunk chunks (strip (slice text start ?e))"
    from False have lt: "start + cs < int (length text)" by simp
    from cut_point_bounds[OF cs less.prems(1) lt]
    have b: "start < ?e" "?e \<le> start + cs" by simp_all
    have I': "I ?e ?c" using step[OF less.prems(1) lt less.prems(3)] .
    have "nat (int (length text) - ?e) < nat (int (length text) - start)"
      using b lt by linarith
    from less.hyps[OF this _ _ I'] b lt less.prems(1)
    obtain s c where r: "0 \<le> s" "s < int (length text)" "int (length text) \<le> s + cs" "I s c"
      "chunk_loop text cs ?e ?c = Some (c @ [strip (slice_from text s)])"
      by auto
    have "chunk_loop text cs start chunks = chunk_loop text cs ?e ?c"
      using less.prems False by (subst chunk_loop.simps) (simp add: Let_def)
    with r show ?thesis by auto
  qed
qed

lemma chunk_text_rule:
  assumes cs: "0 < cs" and init: "I 0 []"
    and step: "\<And>s c. 0 \<le> s \<Longrightarrow> s + cs < int (length tx) \<Longrightarrow> I s c \<Longrightarrow>
                 I (cut_point tx cs s) (add_chunk c (strip (slice tx s (cut_point tx cs s))))"
  shows "(tx = [] \<and> chunk_text tx cs = Some []) \<or>
     (\<exists>s c. 0 \<le> s \<and> s < int (length tx) \<and> int (length tx) \<le> s + cs \<and> I s c \<and>
           chunk_text tx cs = Some (c @ [strip (slice_from tx s)]))"
proof (cases "tx = []")
  case True
  then have "chunk_text tx cs = Some []"
    unfolding chunk_text_def by (subst chunk_loop.simps) simp
  with True show ?thesis by simp
next
  case False
  then have "(0::int) < int (length tx)" by simp
  from chunk_loop_rule[where I = I, OF cs step _ this init] show ?thesis
    unfolding chunk_text_def by auto
qed

lemma chunk_text_returns: "0 < cs \<Longrightarrow> \<exists>ys. chunk_text tx cs = Some ys"
  using chunk_text_rule[where I = "\<lambda>_ _. True" and tx = tx and cs = cs] by auto

lemma reconstructs_pad:
  "reconstructs cs t \<Longrightarrow> \<forall>c\<in>set w. isspace c \<Longrightarrow> reconstructs cs (t @ w)"
proof (induction rule: reconstructs.induct)
  case (rc_nil v)
  then show ?case by (auto intro!: reconstructs.rc_nil)
next
  case (rc_cons v cs t c)
  from reconstructs.rc_cons[OF rc_cons.hyps(1) rc_cons.IH[OF rc_cons.prems]]
  show ?case by simp
qed

lemma reconstructs_snoc:
  "reconstructs cs t \<Longrightarrow> \<forall>c\<in>set w1. isspace c \<Longrightarrow> \<forall>c\<in>set w2. isspace c \<Longrightarrow>
   reconstructs (cs @ [x]) (t @ w1 @ x @ w2)"
proof (induction rule: reconstructs.induct)
  case (rc_nil v)
  then have "\<forall>c\<in>set (v @ w1). isspace c" by auto
  from reconstructs.rc_cons[OF this reconstructs.rc_nil[OF rc_nil.prems(2)], of x]
  show ?case by simp
next
  case (rc_cons v cs t c)
  from reconstructs.rc_cons[OF rc_cons.hyps(1) rc_cons.IH[OF rc_cons.prems]]
  show ?case by simp
qed

lemma reconstructs_last: "reconstructs cs t \<Longrightarrow> reconstructs (cs @ [strip p]) (t @ p)"
proof -
  assume r: "reconstructs cs t"
  obtain w1 w2 where w: "\<forall>c\<in>set w1. isspace c" "\<forall>c\<in>set w2. isspace c" "p = w1 @ strip p @ w2"
    using strip_decomp[of p] by blast
  from reconstructs_snoc[OF r w(1,2), of "strip p"] w(3) show ?thesis by simp
qed

lemma reconstructs_piece: "reconstructs cs t \<Longrightarrow> reconstructs (add_chunk cs (strip p)) (t @ p)"
proof (cases "strip p = []")
  case True
  assume r: "reconstructs cs t"
  obtain w1 w2 where w: "\<forall>c\<in>set w1. isspace c" "\<forall>c\<in>set w2. isspace c" "p = w1 @ strip p @ w2"
    using strip_decomp[of p] by blast
  with True have "p = w1 @ w2" by simp
  with w have "\<forall>c\<in>set p. isspace c" by (metis Un_iff set_append)
  from reconstructs_pad[OF r this] True show ?thesis by (simp add: add_chunk_def)
next
  case False
  assume "reconstructs cs t"
  from reconstructs_last[OF this, of p] False show ?thesis by (simp add: add_chunk_def)
qed

lemma reconstructs_filter:
  "reconstructs cs t \<Longrightarrow> filter (\<lambda>c. \<not> isspace c) (concat cs) = filter (\<lambda>c. \<not> isspace c) t"
  by (induction rule: reconstructs.induct) (auto simp: filter_empty_conv)

lemma take_slice:
  "0 \<le> s \<Longrightarrow> s \<le> e \<Longrightarrow> e \<le> int (length tx) \<Longrightarrow> take (nat e) tx = take (nat s) tx @ slice tx s e"
proof -
  assume h: "0 \<le> s" "s \<le> e" "e \<le> int (length tx)"
  then have "nat e = nat s + (nat e - nat s)" by simp
  then have "take (nat e) tx = take (nat s) tx @ take (nat e - nat s) (drop (nat s) tx)"
    by (metis take_add)
  with h show ?thesis by (simp add: slice_eq)
qed

lemma chunk_loop_last:
  "start < int (length tx) \<Longrightarrow> int (length tx) \<le> start + cs \<Longrightarrow>
   chunk_loop tx cs start chunks = Some (chunks @ [strip (slice_from tx start)])"
  by (subst chunk_loop.simps) simp

lemma chunk_loop_step:
  "start < int (length tx) \<Longrightarrow> start + cs < int (length tx) \<Longrightarrow>
   chunk_loop tx cs start chunks =
     chunk_loop tx cs (cut_point tx cs start)
       (add_chunk chunks (strip (slice tx start (cut_point tx cs start))))"
  by (subst chunk_loop.simps) (simp add: Let_def)

lemma chunk_loop_done: "\<not> start < int (length tx) \<Longrightarrow> chunk_loop tx cs start chunks = Some chunks"
  by (subst chunk_loop.simps) simp

text \<open>The equations that evaluate the chunker on a concrete text.\<close>

lemmas chunk_eval = chunk_text_def chunk_loop_last chunk_loop_step chunk_loop_done cut_point_def
  rfind_def contains_def slice_def slice_from_def clamp_index_def past_30_def strip_def
  isspace_def add_chunk_def Let_def

lemma chunk_text_example:
  "chunk_text [97, 98, 46, 32, 99, 100, 10, 10, 101, 102, 32, 103, 104] 6 =
     Some [[97, 98, 46], [99, 100], [101, 102, 32, 103, 104]]"
  by (simp add: chunk_eval)

text \<open>
  C10. For every text and every \<open>chunk_size \<ge> 1\<close> the chunker returns: each iteration that
  does not take the final branch moves the scan position strictly forward, because the cut
  point chosen for a window (paragraph break, sentence break or hard boundary) lies
  strictly beyond the start of the window.
\<close>

theorem chunk_text_terminates:
  assumes "1 \<le> chunk_size"
  shows "(\<exists>chunks. chunk_text tx chunk_size = Some chunks) \<and>
         (\<forall>start. 0 \<le> start \<and> start + chunk_size < int (length tx) \<longrightarrow>
            start < cut_point tx chunk_size start)"
proof
  from assms show "\<exists>chunks. chunk_text tx chunk_size = Some chunks"
    by (intro chunk_text_returns) simp
next
  from assms have "0 < chunk_size" by simp
  then show "\<forall>start. 0 \<le> start \<and> start + chunk_size < int (length tx) \<longrightarrow>
            start < cut_point tx chunk_size start"
    using cut_point_bounds by blast
qed

theorem chunk_text_terminates_witness:
  "(1::int) \<le> 6 \<and>
   (\<exists>chunks. chunk_text [97, 98, 46, 32, 99, 100, 10, 10, 101, 102, 32, 103, 104] 6 = Some chunks) \<and>
   0 < cut_point [97, 98, 46, 32, 99, 100, 10, 10, 101, 102, 32, 103, 104] 6 0 \<and>
   3 < cut_point [97, 98, 46, 32, 99, 100, 10, 10, 101, 102, 32, 103, 104] 6 3"
  using chunk_text_terminates [of 6 "[97, 98, 46, 32, 99, 100, 10, 10, 101, 102, 32, 103, 104]"]
  by simp

text \<open>
  C6. For every text and every positive \<open>chunk_size\<close>, every chunk the chunker returns has
  at most \<open>chunk_size\<close> characters. This holds for the last chunk too, and whether or not
  a break point was found in the window, so the two exceptions the claim allows are never
  needed.
\<close>

theorem chunk_text_size_bound:
  assumes "0 < chunk_size" and "chunk_text tx chunk_size = Some chunks"
  shows "\<forall>c\<in>set chunks. int (length c) \<le> chunk_size"
proof
  fix y
  assume mem: "y \<in> set chunks"
  note pos = assms(1) and ret = assms(2)
  show "int (length y) \<le> chunk_size"
  proof -
    let ?I = "\<lambda>(s::int) c. \<forall>x\<in>set c. int (length x) \<le> chunk_size"
    have step: "?I (cut_point tx chunk_size s) (add_chunk c (strip (slice tx s (cut_point tx chunk_size s))))"
      if "0 \<le> s" "s + chunk_size < int (length tx)" "?I s c" for s c
    proof -
      from cut_point_bounds[OF pos that(1,2)]
      have b: "s < cut_point tx chunk_size s" "cut_point tx chunk_size s \<le> s + chunk_size" by simp_all
      have "length (slice tx s (cut_point tx chunk_size s)) = nat (cut_point tx chunk_size s - s)"
        using b that by (intro length_slice_window) auto
      then have "int (length (strip (slice tx s (cut_point tx chunk_size s)))) \<le> chunk_size"
        using length_strip_le[of "slice tx s (cut_point tx chunk_size s)"] b by linarith
      with that(3) show ?thesis by (auto simp: add_chunk_def)
    qed
    have "(tx = [] \<and> chunk_text tx chunk_size = Some []) \<or>
       (\<exists>s c. 0 \<le> s \<and> s < int (length tx) \<and> int (length tx) \<le> s + chunk_size \<and> ?I s c \<and>
             chunk_text tx chunk_size = Some (c @ [strip (slice_from tx s)]))"
      by (rule chunk_text_rule[where I = ?I, OF pos _ step]) simp_all
    then show ?thesis
    proof (elim disjE exE conjE)
      assume "chunk_text tx chunk_size = Some []"
      with ret mem show ?thesis by simp
    next
      fix s c
      assume 2: "0 \<le> s" "s < int (length tx)" "int (length tx) \<le> s + chunk_size" "?I s c"
             "chunk_text tx chunk_size = Some (c @ [strip (slice_from tx s)])"
      have "length (slice_from tx s) = length tx - nat s"
        using 2(1,2) by (simp add: slice_from_eq)
      then have l: "int (length (strip (slice_from tx s))) \<le> chunk_size"
        using length_strip_le[of "slice_from tx s"] 2(1,2,3) by linarith
      from 2(5) ret have "chunks = c @ [strip (slice_from tx s)]" by simp
      with mem have "y \<in> set c \<or> y = strip (slice_from tx s)" by auto
      with l 2(4) show ?thesis by blast
    qed
  qed
qed

theorem chunk_text_size_bound_witness:
  "(0::int) < 6 \<and>
   chunk_text [97, 98, 46, 32, 99, 100, 10, 10, 101, 102, 32, 103, 104] 6 =
     Some [[97, 98, 46], [99, 100], [101, 102, 32, 103, 104]] \<and>
   list_all (\<lambda>c. int (length c) \<le> 6) [[97, 98, 46], [99, 100], [101, 102, 32, 103, 104 :: nat]]"
  using chunk_text_size_bound [OF _ chunk_text_example] chunk_text_example by simp

text \<open>
  C7. For every text and every positive \<open>chunk_size\<close>, the chunks returned reconstruct the
  text up to whitespace trimming: the text is the chunks in order with runs of whitespace
  between them, so its non-whitespace characters are those of the concatenated chunks, in
  the same order, none lost and none repeated.
\<close>

theorem chunk_text_coverage:
  assumes "0 < chunk_size" and "chunk_text tx chunk_size = Some chunks"
  shows "reconstructs chunks tx \<and>
         filter (\<lambda>c. \<not> isspace c) (concat chunks) = filter (\<lambda>c. \<not> isspace c) tx"
proof -
  note pos = assms(1) and ret = assms(2)
  have "reconstructs chunks tx"
  proof -
    let ?I = "\<lambda>(s::int) c. s \<le> int (length tx) \<and> reconstructs c (take (nat s) tx)"
    have step: "?I (cut_point tx chunk_size s) (add_chunk c (strip (slice tx s (cut_point tx chunk_size s))))"
      if "0 \<le> s" "s + chunk_size < int (length tx)" "?I s c" for s c
    proof -
      from cut_point_bounds[OF pos that(1,2)]
      have b: "s < cut_point tx chunk_size s" "cut_point tx chunk_size s \<le> s + chunk_size" by simp_all
      then have e: "cut_point tx chunk_size s \<le> int (length tx)" using that(2) by simp
      have "take (nat (cut_point tx chunk_size s)) tx = take (nat s) tx @ slice tx s (cut_point tx chunk_size s)"
        using b that(1) e by (intro take_slice) simp_all
      with reconstructs_piece[of c "take (nat s) tx" "slice tx s (cut_point tx chunk_size s)"] that(3) e
      show ?thesis by simp
    qed
    have init: "?I 0 []" by (simp add: reconstructs.rc_nil)
    have "(tx = [] \<and> chunk_text tx chunk_size = Some []) \<or>
       (\<exists>s c. 0 \<le> s \<and> s < int (length tx) \<and> int (length tx) \<le> s + chunk_size \<and> ?I s c \<and>
             chunk_text tx chunk_size = Some (c @ [strip (slice_from tx s)]))"
      by (rule chunk_text_rule[where I = ?I, OF pos init step]) simp_all
    then show ?thesis
    proof (elim disjE exE conjE)
      assume "tx = []" "chunk_text tx chunk_size = Some []"
      with ret show ?thesis by (simp add: reconstructs.rc_nil)
    next
      fix s c
      assume 2: "0 \<le> s" "s < int (length tx)" "reconstructs c (take (nat s) tx)"
             "chunk_text tx chunk_size = Some (c @ [strip (slice_from tx s)])"
      have "slice_from tx s = drop (nat s) tx" using 2(1,2) by (simp add: slice_from_eq)
      with reconstructs_last[OF 2(3), of "slice_from tx s"]
      have "reconstructs (c @ [strip (slice_from tx s)]) tx" by simp
      with 2(4) ret show ?thesis by simp
    qed
  qed
  then show ?thesis using reconstructs_filter by blast
qed

theorem chunk_text_coverage_witness:
  "(0::int) < 6 \<and>
   chunk_text [97, 98, 46, 32, 99, 100, 10, 10, 101, 102, 32, 103, 104] 6 =
     Some [[97, 98, 46], [99, 100], [101, 102, 32, 103, 104]] \<and>
   reconstructs [[97, 98, 46], [99, 100], [101, 102, 32, 103, 104]]
     [97, 98, 46, 32, 99, 100, 10, 10, 101, 102, 32, 103, 104] \<and>
   filter (\<lambda>c. \<not> isspace c) (concat [[97, 98, 46], [99, 100], [101, 102, 32, 103, 104]]) =
     filter (\<lambda>c. \<not> isspace c) [97, 98, 46, 32, 99, 100, 10, 10, 101, 102, 32, 103, 104]"
  using chunk_text_coverage [OF _ chunk_text_example] chunk_text_example by simp

section \<open>Properties of link extraction, the store writer and the crawler\<close>

text \<open>
  C5. For every HTML input and base URL, every link that \<open>extract_links_from_html\<close>
  returns has the \<open>netloc\<close> (the host part) of the base URL, and no link is returned twice;
  the links returned are exactly the joined hrefs on the base URL's host.
\<close>

theorem extract_links_same_host:
  "(\<forall>link\<in>set (extract_links_from_html env html base_url).
      netloc env link = netloc env base_url) \<and>
   distinct (extract_links_from_html env html base_url) \<and>
   set (extract_links_from_html env html base_url) =
     {u \<in> urljoin env base_url ` set (anchor_hrefs env html). netloc env u = netloc env base_url}"
proof (intro conjI)
  show "\<forall>link\<in>set (extract_links_from_html env html base_url).
          netloc env link = netloc env base_url"
    by (simp add: extract_links_from_html_def)
  show "distinct (extract_links_from_html env html base_url)"
    by (simp add: extract_links_from_html_def)
  show "set (extract_links_from_html env html base_url) =
     {u \<in> urljoin env base_url ` set (anchor_hrefs env html). netloc env u = netloc env base_url}"
    by (auto simp: extract_links_from_html_def)
qed

theorem extract_links_same_host_witness:
  "extract_links_from_html site_env (ascii ''a2b1a2'') (ascii ''a1'') = [ascii ''a2''] \<and>
   netloc site_env (ascii ''a2'') = netloc site_env (ascii ''a1'') \<and>
   distinct (extract_links_from_html site_env (ascii ''a2b1a2'') (ascii ''a1''))"
proof -
  have e: "extract_links_from_html site_env (ascii ''a2b1a2'') (ascii ''a1'') = [ascii ''a2'']"
    by (simp add: extract_links_from_html_def site_env_def ascii_def)
  from extract_links_same_host [of site_env "ascii ''a2b1a2''" "ascii ''a1''"] e
  show ?thesis by simp
qed

lemma insert_chunk_failed:
  "add coll (chunk_id chunk) (chunk_row chunk) = Inl e \<Longrightarrow> insert_chunk add coll chunk = coll"
  by (simp add: insert_chunk_def)




lemma process_returns:
  "\<exists>chunks. chunk_text t 1500 = Some chunks \<and>
     process_and_store_document env coll u t =
       Some (foldl (insert_chunk (collection_add env)) coll (page_chunks env u chunks), length chunks)"
proof -
  obtain chunks where "chunk_text t 1500 = Some chunks"
    using chunk_text_returns[of 1500 t] by auto
  then show ?thesis
    by (simp add: process_and_store_document_def page_chunks_def Let_def)
qed

lemma crawl_page_effect:
  "\<exists>s2. crawl_page env u s = Some s2 \<and> visited_urls s2 = visited_urls s \<and>
      processed_count s2 = processed_count s + (if indexable env u then 1 else 0) \<and>
      (if indexable env u
       then \<exists>t chunks. page_text env u = Some t \<and> chunk_text t 1500 = Some chunks \<and>
              collection s2 = foldl (insert_chunk (collection_add env)) (collection s) (page_chunks env u chunks)
       else collection s2 = collection s)"
proof (cases "fetch_url env u")
  case None
  then show ?thesis by (simp add: crawl_page_def indexable_def page_text_def)
next
  case (Some html)
  show ?thesis
  proof (cases "html = []")
    case True
    with Some show ?thesis by (simp add: crawl_page_def indexable_def page_text_def)
  next
    case False
    let ?t = "extract_text_from_html env html"
    have pt: "page_text env u = Some ?t" using Some False by (simp add: page_text_def)
    show ?thesis
    proof (cases "500 < length ?t")
      case True
      obtain chunks where c: "chunk_text ?t 1500 = Some chunks"
        "process_and_store_document env (collection s) u ?t =
           Some (foldl (insert_chunk (collection_add env)) (collection s) (page_chunks env u chunks), length chunks)"
        using process_returns[of ?t env "collection s" u] by blast
      from True pt have ix: "indexable env u" by (simp add: indexable_def)
      from Some False True c ix pt show ?thesis
        by (simp add: crawl_page_def Let_def)
    next
      case False2: False
      from False2 pt have ix: "\<not> indexable env u" by (simp add: indexable_def)
      from Some False False2 ix show ?thesis
        by (simp add: crawl_page_def Let_def)
    qed
  qed
qed

lemma crawl_loop_total:
  "crawl_inv env max_pages s \<Longrightarrow>
   \<exists>s'. crawl_loop env pick max_pages s = Some s' \<and> crawl_inv env max_pages s' \<and>
        (queued_urls s' = [] \<or> max_pages \<le> int (length (visited_urls s')))"
proof (induction env pick max_pages s rule: crawl_loop.induct)
  case (1 env pick max_pages s)
  show ?case
  proof (cases "queued_urls s \<noteq> [] \<and> int (length (visited_urls s)) < max_pages")
    case False
    then have "crawl_loop env pick max_pages s = Some s"
      by (subst crawl_loop.simps) auto
    with False "1.prems" show ?thesis by auto
  next
    case True
    define i where "i = pick (queued_urls s) mod length (queued_urls s)"
    define current_url where "current_url = queued_urls s ! i"
    define s1 where "s1 = s\<lparr>queued_urls := take i (queued_urls s) @ drop (Suc i) (queued_urls s)\<rparr>"
    have inv1: "crawl_inv env max_pages s1"
      using "1.prems" by (simp add: crawl_inv_def s1_def)
    show ?thesis
    proof (cases "current_url \<in> set (visited_urls s1)")
      case in_visited: True
      have "crawl_loop env pick max_pages s = crawl_loop env pick max_pages s1"
        using True in_visited
        by (subst crawl_loop.simps) (simp add: Let_def i_def current_url_def s1_def)
      with "1.IH"(1)[OF True i_def current_url_def s1_def in_visited inv1] show ?thesis by simp
    next
      case fresh: False
      let ?sv = "s1\<lparr>visited_urls := set_add current_url (visited_urls s1)\<rparr>"
      obtain s2 where s2: "crawl_page env current_url ?sv = Some s2"
        "visited_urls s2 = visited_urls ?sv"
        "processed_count s2 = processed_count ?sv + (if indexable env current_url then 1 else 0)"
        using crawl_page_effect[of env current_url ?sv] by blast
      have v: "visited_urls s2 = visited_urls s @ [current_url]"
        using fresh s2(2) by (simp add: set_add_def s1_def)
      have "int (length (visited_urls s)) < max_pages" using True by simp
      then have "Suc (length (visited_urls s)) \<le> nat max_pages" by linarith
      with "1.prems" fresh v s2(3) have inv2: "crawl_inv env max_pages s2"
        by (simp add: crawl_inv_def s1_def)
      have "crawl_loop env pick max_pages s = crawl_loop env pick max_pages s2"
        using True fresh s2(1)
        by (subst crawl_loop.simps) (simp add: Let_def i_def current_url_def s1_def)
      with "1.IH"(2)[OF True i_def current_url_def s1_def fresh s2(1) inv2] show ?thesis by simp
    qed
  qed
qed

lemma crawl_loop_stop:
  "queued_urls s = [] \<or> \<not> int (length (visited_urls s)) < max_pages \<Longrightarrow>
   crawl_loop env pick max_pages s = Some s"
  by (subst crawl_loop.simps) auto

lemma crawl_loop_unfold:
  "queued_urls s \<noteq> [] \<Longrightarrow> int (length (visited_urls s)) < max_pages \<Longrightarrow>
   crawl_loop env pick max_pages s =
     (let i = pick (queued_urls s) mod length (queued_urls s);
          current_url = queued_urls s ! i;
          s1 = s\<lparr>queued_urls := take i (queued_urls s) @ drop (Suc i) (queued_urls s)\<rparr>
      in if current_url \<in> set (visited_urls s1) then crawl_loop env pick max_pages s1
         else
           (case crawl_page env current_url
                   (s1\<lparr>visited_urls := set_add current_url (visited_urls s1)\<rparr>) of
              None \<Rightarrow> None
            | Some s2 \<Rightarrow> crawl_loop env pick max_pages s2))"
  by (subst crawl_loop.simps) simp

lemma chunk_text_one_window:
  "tx \<noteq> [] \<Longrightarrow> int (length tx) \<le> cs \<Longrightarrow> chunk_text tx cs = Some [strip tx]"
  by (simp add: chunk_text_def chunk_loop_last slice_from_def clamp_index_def)

text \<open>The equations that run the crawler on the small site.\<close>

lemmas site_eval = crawl_run_def crawl_website_def crawl_loop_stop crawl_loop_unfold crawl_page_def
  fetch_url_def site_env_def site_env_failing_def site_get_def site_text_def
  extract_links_from_html_def enqueue_links_def set_add_def process_and_store_document_def
  chunk_text_one_window ascii_def Let_def

lemma site_run:
  "map_option (\<lambda>s. (visited_urls s, queued_urls s, processed_count s))
     (crawl_run site_env (\<lambda>q. 0) Map.empty (ascii ''a1'') 5) =
   Some ([ascii ''a1'', ascii ''a2''], [], 1)"
  by (simp add: site_eval)

lemma site_run_failing:
  "map_option (\<lambda>s. (visited_urls s, processed_count s, collection s))
     (crawl_run site_env_failing (\<lambda>q. 0) Map.empty (ascii ''a1'') 5) =
   Some ([ascii ''a1'', ascii ''a2''], 1, Map.empty)"
  by (simp add: site_eval insert_chunk_def failing_add_def)

text \<open>
  C4. For every seed URL, every page cap, every site (every behaviour of the fetcher and
  the link extractor, cyclic link graphs included) and every order in which the queue is
  popped, the crawl returns, and it ends with at most \<open>max_pages\<close> visited URLs, none of
  them twice, with the queue empty or the cap reached.
\<close>

theorem crawl_terminates_within_cap:
  "\<exists>s. crawl_run env pick coll start_url max_pages = Some s \<and>
       length (visited_urls s) \<le> nat max_pages \<and>
       distinct (visited_urls s) \<and>
       (queued_urls s = [] \<or> max_pages \<le> int (length (visited_urls s)))"
proof -
  let ?s0 = "\<lparr>visited_urls = [], queued_urls = [start_url], processed_count = 0,
              collection = coll\<rparr>"
  have "crawl_inv env max_pages ?s0" by (simp add: crawl_inv_def)
  from crawl_loop_total[OF this, of pick]
  obtain s where "crawl_loop env pick max_pages ?s0 = Some s" "crawl_inv env max_pages s"
    "queued_urls s = [] \<or> max_pages \<le> int (length (visited_urls s))"
    by blast
  then show ?thesis by (auto simp: crawl_run_def crawl_inv_def)
qed

theorem crawl_terminates_within_cap_witness:
  "map_option (\<lambda>s. (visited_urls s, queued_urls s, processed_count s))
     (crawl_run site_env (\<lambda>q. 0) Map.empty (ascii ''a1'') 5) =
     Some ([ascii ''a1'', ascii ''a2''], [], 1) \<and>
   (\<exists>s. crawl_run site_env (\<lambda>q. 0) Map.empty (ascii ''a1'') 5 = Some s \<and>
        length (visited_urls s) \<le> nat 5 \<and> distinct (visited_urls s) \<and>
        (queued_urls s = [] \<or> 5 \<le> int (length (visited_urls s))))"
  using crawl_terminates_within_cap [of site_env "\<lambda>q. 0" Map.empty "ascii ''a1''" 5] site_run
  by simp

text \<open>
  C8, as the code has it. The crawl returns the number of visited pages that are
  indexable: fetched with status 200 and a non-empty body, and with an extracted text of
  more than 500 characters. A page is counted and run through the chunker, the enricher
  and the store writer exactly when it is indexable; any other visited page leaves the
  count and the store untouched. The count does not say that anything was stored: a store
  write that fails is dropped by \<open>insert_chunk\<close> and the page is counted all the same.
\<close>

theorem crawl_counts_indexable_pages:
  "(\<exists>s. crawl_run env pick coll start_url max_pages = Some s \<and>
        crawl_website env pick coll start_url max_pages =
          Some (length (filter (indexable env) (visited_urls s)))) \<and>
   (\<exists>s2. crawl_page env u s0 = Some s2 \<and>
        processed_count s2 = processed_count s0 + (if indexable env u then 1 else 0) \<and>
        (if indexable env u
         then \<exists>t chunks. page_text env u = Some t \<and> chunk_text t 1500 = Some chunks \<and>
                collection s2 =
                  foldl (insert_chunk (collection_add env)) (collection s0) (page_chunks env u chunks)
         else collection s2 = collection s0))"
proof
  let ?s0 = "\<lparr>visited_urls = [], queued_urls = [start_url], processed_count = 0,
              collection = coll\<rparr>"
  have "crawl_inv env max_pages ?s0" by (simp add: crawl_inv_def)
  from crawl_loop_total[OF this, of pick]
  obtain s where "crawl_loop env pick max_pages ?s0 = Some s" "crawl_inv env max_pages s"
    by blast
  then show "\<exists>s. crawl_run env pick coll start_url max_pages = Some s \<and>
        crawl_website env pick coll start_url max_pages =
          Some (length (filter (indexable env) (visited_urls s)))"
    by (auto simp: crawl_run_def crawl_website_def crawl_inv_def)
next
  from crawl_page_effect[of env u s0]
  show "\<exists>s2. crawl_page env u s0 = Some s2 \<and>
        processed_count s2 = processed_count s0 + (if indexable env u then 1 else 0) \<and>
        (if indexable env u
         then \<exists>t chunks. page_text env u = Some t \<and> chunk_text t 1500 = Some chunks \<and>
                collection s2 =
                  foldl (insert_chunk (collection_add env)) (collection s0) (page_chunks env u chunks)
         else collection s2 = collection s0)"
    by blast
qed

theorem crawl_counts_indexable_pages_witness:
  "crawl_website site_env (\<lambda>q. 0) Map.empty (ascii ''a1'') 5 = Some 1 \<and>
   indexable site_env (ascii ''a1'') \<and> \<not> indexable site_env (ascii ''a2'') \<and>
   (\<exists>s. crawl_run site_env (\<lambda>q. 0) Map.empty (ascii ''a1'') 5 = Some s \<and>
        crawl_website site_env (\<lambda>q. 0) Map.empty (ascii ''a1'') 5 =
          Some (length (filter (indexable site_env) (visited_urls s))))"
proof -
  have a: "indexable site_env (ascii ''a1'')" "\<not> indexable site_env (ascii ''a2'')"
    by (simp_all add: indexable_def page_text_def fetch_url_def site_env_def site_get_def
        site_text_def ascii_def)
  have b: "crawl_website site_env (\<lambda>q. 0) Map.empty (ascii ''a1'') 5 = Some 1"
    using site_run by (auto simp: crawl_website_def)
  from crawl_counts_indexable_pages
    [of site_env "\<lambda>q. 0" Map.empty "ascii ''a1''" 5 "ascii ''a1''"] a b
  show ?thesis by blast
qed

text \<open>
  C8 as stated fails: on the small site with a store that refuses every write the crawl
  returns 1, and the store is as empty as before, so no page's content was stored.
\<close>

theorem crawl_count_not_stored_counterexample:
  "crawl_website site_env_failing (\<lambda>q. 0) Map.empty (ascii ''a1'') 5 = Some 1 \<and>
   map_option collection (crawl_run site_env_failing (\<lambda>q. 0) Map.empty (ascii ''a1'') 5) =
     Some Map.empty"
  using site_run_failing by (auto simp: crawl_website_def)

section \<open>Properties of the query assembler\<close>

lemma replace_hit: "old \<noteq> [] \<Longrightarrow> replace old new (old @ s) = new @ replace old new s"
  by (subst replace.simps) simp

lemma replace_miss:
  "old \<noteq> [] \<Longrightarrow> \<not> prefix old (c # s) \<Longrightarrow> replace old new (c # s) = c # replace old new s"
  by (subst replace.simps) simp

lemma replace_short: "length s < length old \<Longrightarrow> replace old new s = s"
proof (induction s)
  case Nil
  then show ?case by (subst replace.simps) auto
next
  case (Cons c s)
  then have "\<not> prefix old (c # s)" using prefix_length_le by fastforce
  moreover from Cons.prems have "old \<noteq> []" by auto
  ultimately show ?case using Cons by (simp add: replace_miss)
qed

lemma strip_id: "s \<noteq> [] \<Longrightarrow> \<not> isspace (hd s) \<Longrightarrow> \<not> isspace (last s) \<Longrightarrow> strip s = s"
proof -
  assume a: "s \<noteq> []" "\<not> isspace (hd s)" "\<not> isspace (last s)"
  then have 1: "dropWhile isspace s = s" by (cases s) auto
  from a have "rev s \<noteq> []" "\<not> isspace (hd (rev s))" by (simp_all add: hd_rev)
  then have "dropWhile isspace (rev s) = rev s" by (cases "rev s") auto
  with 1 show ?thesis by (simp add: strip_def)
qed

lemma disclaimer_shape:
  "\<exists>rest. disclaimer_text = 3586 # 3657 # rest" "last disclaimer_text = 3610"
  "length disclaimer_text = 209"
  by (simp_all add: disclaimer_text_def)

lemma replace_split_response:
  "replace disclaimer_text [] split_disclaimer_response = 120 # disclaimer_text"
proof -
  obtain rest where d: "disclaimer_text = 3586 # 3657 # rest"
    using disclaimer_shape(1) by blast
  have ne: "disclaimer_text \<noteq> []" using disclaimer_shape(3) by auto
  have s: "split_disclaimer_response = 120 # 3586 # disclaimer_text @ 3657 # rest"
    by (simp add: split_disclaimer_response_def d)
  have 1: "\<not> prefix disclaimer_text (120 # 3586 # disclaimer_text @ 3657 # rest)"
    by (subst d) simp
  have 2: "\<not> prefix disclaimer_text (3586 # disclaimer_text @ 3657 # rest)"
    by (simp add: d)
  have 3: "replace disclaimer_text [] (3657 # rest) = 3657 # rest"
    by (rule replace_short) (simp add: d)
  have "replace disclaimer_text [] split_disclaimer_response =
        120 # 3586 # replace disclaimer_text [] (disclaimer_text @ 3657 # rest)"
    unfolding s using ne 1 2 by (simp add: replace_miss)
  also have "\<dots> = 120 # 3586 # 3657 # rest"
    using ne 3 by (simp add: replace_hit)
  also have "\<dots> = 120 # disclaimer_text" using d by simp
  finally show ?thesis .
qed

lemma strip_disclaimer: "strip disclaimer_text = disclaimer_text"
proof (rule strip_id)
  obtain rest where d: "disclaimer_text = 3586 # 3657 # rest"
    using disclaimer_shape(1) by blast
  show "disclaimer_text \<noteq> []" using disclaimer_shape(3) by auto
  show "\<not> isspace (hd disclaimer_text)" by (subst d) (simp add: isspace_def)
  show "\<not> isspace (last disclaimer_text)" by (simp add: disclaimer_shape(2) isspace_def)
qed

lemma final_split_response:
  "final_answer_with_disclaimer split_disclaimer_response False =
     [120] @ disclaimer_text @ sep2 @ disclaimer_text"
proof -
  have ne: "disclaimer_text \<noteq> []" using disclaimer_shape(3) by auto
  have "strip (120 # disclaimer_text) = 120 # disclaimer_text"
    using ne by (intro strip_id) (simp_all add: isspace_def disclaimer_shape(2))
  then show ?thesis
    by (simp add: final_answer_with_disclaimer_def replace_split_response strip_disclaimer Let_def)
qed

lemma query_split_response:
  "answer (fst (query_rag_system (one_record_env split_disclaimer_response) (ascii ''q'') [] 3)) =
     [120] @ disclaimer_text @ sep2 @ disclaimer_text"
  by (simp add: query_rag_system_def one_record_env_def retrieved_pairs_def retrieved_def
      final_split_response Let_def)

lemma count_split_response: "count_sub disclaimer_text split_disclaimer_response = 1"
  by (simp add: split_disclaimer_response_def disclaimer_text_def)

lemma count_sub_short: "length s < length d \<Longrightarrow> count_sub d s = 0"
proof (induction s)
  case Nil
  then show ?case by auto
next
  case (Cons x xs)
  then have "\<not> prefix d (x # xs)" using prefix_length_le by fastforce
  with Cons show ?case by simp
qed

lemma count_sub_self: "d \<noteq> [] \<Longrightarrow> count_sub d d = 1"
  by (cases d) (simp_all add: count_sub_short)

lemma prefix_blocked: "c \<notin> set d \<Longrightarrow> prefix d (u @ c # v) \<longleftrightarrow> prefix d u"
proof
  assume c: "c \<notin> set d" and p: "prefix d (u @ c # v)"
  from p have "prefix d u \<or> (\<exists>ds. d = u @ ds \<and> prefix ds (c # v))"
    by (simp add: prefix_append)
  then show "prefix d u"
  proof (elim disjE exE conjE)
    fix ds
    assume d: "d = u @ ds" and q: "prefix ds (c # v)"
    show "prefix d u"
    proof (cases ds)
      case Nil
      with d show ?thesis by simp
    next
      case (Cons x ds')
      with q have "x = c" by simp
      with Cons d c show ?thesis by simp
    qed
  qed
next
  assume "prefix d u"
  then show "prefix d (u @ c # v)" by (simp add: prefix_prefix)
qed

lemma count_sub_blocked:
  "d \<noteq> [] \<Longrightarrow> c \<notin> set d \<Longrightarrow> count_sub d (p @ c # v) = count_sub d p + count_sub d (c # v)"
proof (induction p)
  case Nil
  then show ?case by simp
next
  case (Cons x p)
  have "prefix d (x # p @ c # v) \<longleftrightarrow> prefix d (x # p)"
    using prefix_blocked[OF Cons.prems(2), of "x # p" v] by simp
  with Cons show ?case by simp
qed

lemma count_sub_skip: "hd d \<noteq> x \<Longrightarrow> d \<noteq> [] \<Longrightarrow> count_sub d (x # s) = count_sub d s"
  by (cases d) auto

lemma disclaimer_chars:
  "92 \<notin> set disclaimer_text" "hd disclaimer_text = 3586" "length disclaimer_text = 209"
  by (simp_all add: disclaimer_text_def)

lemma count_with_disclaimer:
  "count_sub disclaimer_text (p @ sep2 @ disclaimer_text) = count_sub disclaimer_text p + 1"
proof -
  have ne: "disclaimer_text \<noteq> []" using disclaimer_chars(3) by auto
  have "count_sub disclaimer_text (p @ sep2 @ disclaimer_text) =
        count_sub disclaimer_text p + count_sub disclaimer_text (92 # 110 # 92 # 110 # disclaimer_text)"
    using count_sub_blocked[OF ne disclaimer_chars(1), of p "110 # 92 # 110 # disclaimer_text"]
    by (simp add: sep2_def)
  also have "count_sub disclaimer_text (92 # 110 # 92 # 110 # disclaimer_text) =
             count_sub disclaimer_text disclaimer_text"
    using ne by (simp add: count_sub_skip disclaimer_chars(2) del: count_sub.simps)
  finally show ?thesis using ne by (simp add: count_sub_self)
qed

lemma count_sub_tail_le: "count_sub d (dropWhile P s) \<le> count_sub d s"
proof (induction s)
  case Nil
  then show ?case by simp
next
  case (Cons x xs)
  then show ?case by (cases "P x") (simp_all add: le_SucI trans_le_add2)
qed

lemma count_sub_zero_rev_dropWhile:
  "d \<noteq> [] \<Longrightarrow> count_sub d s = 0 \<Longrightarrow> count_sub d (rev (dropWhile P (rev s))) = 0"
proof -
  assume d: "d \<noteq> []" and z: "count_sub d s = 0"
  have "\<exists>w. s = rev (dropWhile P (rev s)) @ w"
    by (metis rev_append rev_rev_ident takeWhile_dropWhile_id)
  then obtain w where w: "s = rev (dropWhile P (rev s)) @ w" ..
  have mono: "count_sub d u \<le> count_sub d (u @ v)" for u v
  proof (induction u)
    case Nil
    then show ?case using d by simp
  next
    case (Cons x u)
    have "prefix d (x # u) \<Longrightarrow> prefix d (x # u @ v)"
      by (metis append_Cons prefix_prefix)
    with Cons show ?case by auto
  qed
  from mono[of "rev (dropWhile P (rev s))" w] w z show ?thesis by simp
qed

lemma count_sub_strip_zero: "d \<noteq> [] \<Longrightarrow> count_sub d s = 0 \<Longrightarrow> count_sub d (strip s) = 0"
proof -
  assume d: "d \<noteq> []" and z: "count_sub d s = 0"
  from z count_sub_tail_le[of d isspace s] have "count_sub d (dropWhile isspace s) = 0" by simp
  from count_sub_zero_rev_dropWhile[OF d this] show ?thesis by (simp add: strip_def)
qed

lemma replace_none: "old \<noteq> [] \<Longrightarrow> count_sub old s = 0 \<Longrightarrow> replace old new s = s"
proof (induction s)
  case Nil
  then show ?case by (subst replace.simps) simp
next
  case (Cons x xs)
  from Cons.prems(2) have "\<not> prefix old (x # xs)" "count_sub old xs = 0"
    by (simp_all split: if_splits)
  with Cons show ?case by (subst replace.simps) simp
qed

lemma fallback_lengths: "length no_info_text = 84" "length insufficient_text = 72"
  by (simp_all add: no_info_text_def insufficient_text_def)

text \<open>
  What the post-processing does achieve: the final answer holds one copy more than the
  text that is left of the response, so it holds exactly one copy when the response holds
  none.
\<close>

lemma final_answer_count:
  "count_sub disclaimer_text (final_answer_with_disclaimer answer_raw no_context) =
     (let processed = strip (replace disclaimer_text [] answer_raw)
      in if processed = [] \<or> processed = strip disclaimer_text then 1
         else count_sub disclaimer_text processed + 1)"
proof -
  have "count_sub disclaimer_text no_info_text = 0" "count_sub disclaimer_text insufficient_text = 0"
    by (simp_all add: count_sub_short fallback_lengths disclaimer_chars(3))
  then show ?thesis
    by (simp add: final_answer_with_disclaimer_def Let_def count_with_disclaimer)
qed

lemma final_answer_one_copy_without_disclaimer:
  assumes "count_sub disclaimer_text answer_raw = 0"
  shows "count_sub disclaimer_text (final_answer_with_disclaimer answer_raw no_context) = 1"
proof -
  have ne: "disclaimer_text \<noteq> []" using disclaimer_chars(3) by auto
  have "replace disclaimer_text [] answer_raw = answer_raw"
    using ne assms by (rule replace_none)
  moreover have "count_sub disclaimer_text (strip answer_raw) = 0"
    using ne assms by (rule count_sub_strip_zero)
  ultimately show ?thesis by (simp add: final_answer_count Let_def)
qed

lemma count_split_answer:
  "count_sub disclaimer_text ([120] @ disclaimer_text @ sep2 @ disclaimer_text) = 2"
proof -
  have ne: "disclaimer_text \<noteq> []" using disclaimer_chars(3) by auto
  have "count_sub disclaimer_text (120 # disclaimer_text) = 1"
    using ne by (simp add: count_sub_skip disclaimer_chars(2) count_sub_self del: count_sub.simps)
  with count_with_disclaimer[of "120 # disclaimer_text"] show ?thesis by simp
qed

lemma query_no_records:
  assumes "embed_query env q = Inr qe" and "collection_query env qe k = Inr results"
    and "\<not> retrieved results"
  shows "query_rag_system env q h k =
     (case llm_invoke env (build_prompt [] h q) of
        Inl e \<Rightarrow> (error_answer e, [build_prompt [] h q])
      | Inr answer_raw \<Rightarrow>
          (\<lparr>answer = no_info_text @ sep2 @ disclaimer_text, sources = []\<rparr>,
           [build_prompt [] h q]))"
  using assms
  by (simp add: query_rag_system_def retrieved_pairs_def Let_def split: sum.splits)








text \<open>
  C2 fails on the code. The response \<open>split_disclaimer_response\<close> holds exactly one copy of
  the disclaimer. \<open>str.replace\<close> removes that copy in its single pass, and what is left,
  the letter \<open>x\<close>, the disclaimer's first character and the disclaimer's rest, is the
  disclaimer again behind the \<open>x\<close>; the source then appends the disclaimer, and the final
  answer holds two copies.
\<close>

theorem disclaimer_twice_on_split_response:
  "count_sub disclaimer_text split_disclaimer_response = 1 \<and>
   answer (fst (query_rag_system (one_record_env split_disclaimer_response) (ascii ''q'') [] 3)) =
     [120] @ disclaimer_text @ sep2 @ disclaimer_text \<and>
   count_sub disclaimer_text
     (answer (fst (query_rag_system (one_record_env split_disclaimer_response) (ascii ''q'') [] 3))) = 2"
proof (intro conjI)
  show "count_sub disclaimer_text split_disclaimer_response = 1"
    by (rule count_split_response)
  show a: "answer (fst (query_rag_system (one_record_env split_disclaimer_response) (ascii ''q'') [] 3)) =
     [120] @ disclaimer_text @ sep2 @ disclaimer_text"
    by (rule query_split_response)
  show "count_sub disclaimer_text
     (answer (fst (query_rag_system (one_record_env split_disclaimer_response) (ascii ''q'') [] 3))) = 2"
    unfolding a by (rule count_split_answer)
qed

text \<open>
  C1, as the code has it. When the embedding and the retrieval succeed and the retrieval
  finds no record, the generation service is invoked once, with the prompt built for an
  empty context, and the sources of the result are empty. If the service returns, its
  response is discarded and the answer is the fixed "no relevant information" text
  followed by the disclaimer; if it raises, the result is the generic error answer.
\<close>

theorem empty_store_answer:
  assumes "embed_query env q = Inr qe" and "collection_query env qe k = Inr results"
    and "\<not> retrieved results"
  shows "snd (query_rag_system env q h k) = [build_prompt [] h q] \<and>
         sources (fst (query_rag_system env q h k)) = [] \<and>
         (case llm_invoke env (build_prompt [] h q) of
            Inr answer_raw \<Rightarrow>
              fst (query_rag_system env q h k) =
                \<lparr>answer = no_info_text @ sep2 @ disclaimer_text, sources = []\<rparr>
          | Inl e \<Rightarrow> fst (query_rag_system env q h k) = error_answer e)"
proof (cases "llm_invoke env (build_prompt [] h q)")
  case (Inl e)
  with query_no_records[OF assms, of h]
  have "query_rag_system env q h k = (error_answer e, [build_prompt [] h q])" by simp
  with Inl show ?thesis by (cases e) (simp add: error_answer_def)
next
  case (Inr answer_raw)
  with query_no_records[OF assms, of h]
  have "query_rag_system env q h k =
      (\<lparr>answer = no_info_text @ sep2 @ disclaimer_text, sources = []\<rparr>, [build_prompt [] h q])"
    by simp
  with Inr show ?thesis by simp
qed

theorem empty_store_answer_witness:
  "query_rag_system empty_store_env (ascii ''q'') [] 3 =
     (\<lparr>answer = no_info_text @ sep2 @ disclaimer_text, sources = []\<rparr>,
      [build_prompt [] [] (ascii ''q'')])"
proof -
  have r: "\<not> retrieved \<lparr>documents = [[]], metadatas = [[]]\<rparr>" by (simp add: retrieved_def)
  have "embed_query empty_store_env (ascii ''q'') = Inr []"
    and "collection_query empty_store_env [] 3 = Inr \<lparr>documents = [[]], metadatas = [[]]\<rparr>"
    and "llm_invoke empty_store_env (build_prompt [] [] (ascii ''q'')) = Inr (ascii ''hello'')"
    by (simp_all add: empty_store_env_def)
  with empty_store_answer [of empty_store_env "ascii ''q''" "[]" 3 _ "[]"] r
  show ?thesis by (simp add: prod_eq_iff)
qed

text \<open>
  C1 as stated fails: on the empty store the generation service is invoked, with the
  prompt for an empty context and an empty history.
\<close>

theorem empty_store_invokes_generation_counterexample:
  "\<not> retrieved \<lparr>documents = [[]], metadatas = [[]]\<rparr> \<and>
   snd (query_rag_system empty_store_env (ascii ''q'') [] 3) = [build_prompt [] [] (ascii ''q'')] \<and>
   snd (query_rag_system empty_store_env (ascii ''q'') [] 3) \<noteq> []"
  by (simp add: query_rag_system_def empty_store_env_def retrieved_pairs_def retrieved_def Let_def)





end
